theory Spec2Isabelle
  imports Main "HOL-Library.AList" "HOL-Library.Sublist"
begin

section \<open>Python values used by imei\_checker\_gui.py\<close>

text \<open>
  A Python \<open>str\<close> is a sequence of code points. The argument of
  \<open>calcular_digito_verificacao\<close> is modelled as the list of its code points, because the
  built-in \<open>int(c)\<close> of a one-character string accepts every Unicode decimal digit, not
  only the characters 0 to 9. The entries of a batch, the API key and the texts of the
  service are modelled as a \<open>string\<close> whose characters stand for the code points U+0000
  to U+00FF. Within that range \<open>str.isdigit\<close> accepts the characters 0 to 9 and the three
  superscript digits U+00B2, U+00B3 and U+00B9, and \<open>str.isspace\<close> accepts the characters
  listed in \<open>py_isspace\<close>.
\<close>

datatype value_error =
    ImeiLength14        \<comment> \<open>"O IMEI deve ter exatamente 14 digitos."\<close>
  | InvalidLiteral nat  \<comment> \<open>raised by \<open>int(char)\<close>: invalid literal for int() with base 10\<close>
  | ImeiInvalido        \<comment> \<open>"IMEI invalido."\<close>

text \<open>
  The exceptions that the code raises itself or receives from the HTTP layer. All of them
  are subclasses of Python's \<open>Exception\<close>.
\<close>

datatype py_exception =
    ValueError value_error
  | AttributeError         \<comment> \<open>\<open>.get\<close> on a value that is not a dict\<close>
  | ClientConnectionError  \<comment> \<open>the request could not be sent or was disconnected\<close>
  | ClientResponseError    \<comment> \<open>\<open>raise_for_status\<close> on a 4xx or 5xx answer\<close>
  | TimeoutError
  | ContentTypeError       \<comment> \<open>\<open>response.json()\<close> on a body that is not JSON\<close>
  | JSONDecodeError

definition codepoints_of :: "string \<Rightarrow> nat list" where
  \<comment> \<open>the code points of a text written with characters below U+0100\<close>
  "codepoints_of s = map of_char s"

definition is_ascii_digit :: "nat \<Rightarrow> bool" where
  \<comment> \<open>the code point of one of the characters 0 to 9\<close>
  "is_ascii_digit c \<longleftrightarrow> 48 \<le> c \<and> c \<le> 57"

text \<open>
  The decimal digits of Unicode form runs of ten consecutive code points, for the values
  0 to 9 in this order. This is the list of the first code point of each run, as the
  \<open>unicodedata\<close> of CPython 3.11 (Unicode 14.0.0) has them: U+0030 for the digits 0 to 9,
  U+0660 for the Arabic-Indic digits, and so on.
\<close>

definition decimal_zeros :: "nat list" where
  "decimal_zeros =
     [48, 1632, 1776, 1984, 2406, 2534, 2662, 2790, 2918, 3046, 3174, 3302, 3430, 3558,
      3664, 3792, 3872, 4160, 4240, 6112, 6160, 6470, 6608, 6784, 6800, 6992, 7088, 7232,
      7248, 42528, 43216, 43264, 43472, 43504, 43600, 44016, 65296, 66720, 68912, 69734,
      69872, 69942, 70096, 70384, 70736, 70864, 71248, 71360, 71472, 71904, 72016, 72784,
      73040, 73120, 92768, 92864, 93008, 120782, 120792, 120802, 120812, 120822, 123200,
      123632, 125264, 130032]"

definition is_decimal_digit :: "nat \<Rightarrow> bool" where
  "is_decimal_digit c \<longleftrightarrow> list_ex (\<lambda>z. z \<le> c \<and> c < z + 10) decimal_zeros"

definition py_decimal :: "nat \<Rightarrow> nat option" where
  \<comment> \<open>the decimal value of a code point, if it has one\<close>
  "py_decimal c =
     (case filter (\<lambda>z. z \<le> c \<and> c < z + 10) decimal_zeros of
        [] \<Rightarrow> None
      | z # _ \<Rightarrow> Some (c - z))"

definition py_int_char :: "nat \<Rightarrow> py_exception + int" where
  \<comment> \<open>\<open>int(char)\<close> for a string of one character, given by its code point\<close>
  "py_int_char c =
     (case py_decimal c of
        Some d \<Rightarrow> Inr (int d)
      | None \<Rightarrow> Inl (ValueError (InvalidLiteral c)))"

definition py_isdigit_char :: "char \<Rightarrow> bool" where
  "py_isdigit_char c \<longleftrightarrow>
     is_ascii_digit (of_char c) \<or> (of_char c :: nat) \<in> {178, 179, 185}"

definition py_isdigit :: "string \<Rightarrow> bool" where
  \<comment> \<open>\<open>str.isdigit\<close>: at least one character, and every character a digit\<close>
  "py_isdigit s \<longleftrightarrow> s \<noteq> [] \<and> list_all py_isdigit_char s"

definition py_isspace :: "char \<Rightarrow> bool" where
  "py_isspace c \<longleftrightarrow>
     (let n = (of_char c :: nat)
      in (9 \<le> n \<and> n \<le> 13) \<or> (28 \<le> n \<and> n \<le> 32) \<or> n = 133 \<or> n = 160)"

definition py_strip :: "string \<Rightarrow> string" where
  \<comment> \<open>\<open>str.strip()\<close>\<close>
  "py_strip s = rev (dropWhile py_isspace (rev (dropWhile py_isspace s)))"

definition py_str_digit :: "nat \<Rightarrow> string" where
  \<comment> \<open>\<open>str(digito)\<close> for the values of \<open>range(10)\<close>\<close>
  "py_str_digit d = [''0123456789'' ! d]"


section \<open>IMEModel.calcular\_digito\_verificacao\<close>

text \<open>
  The loop \<open>for i, char in enumerate(imei[::-1])\<close>: \<open>i\<close> is the index, the list holds the
  code points of the characters still to visit and \<open>soma\<close> is the running sum.
  \<open>int(char)\<close> may raise.
\<close>

fun luhn_loop :: "nat \<Rightarrow> nat list \<Rightarrow> int \<Rightarrow> py_exception + int" where
  "luhn_loop i [] soma = Inr soma"
| "luhn_loop i (c # cs) soma =
     (case py_int_char c of
        Inl e \<Rightarrow> Inl e
      | Inr digito \<Rightarrow>
          luhn_loop (i + 1) cs
            (soma + (if i mod 2 = 1
                     then (if digito * 2 > 9 then digito * 2 - 9 else digito * 2)
                     else digito)))"

definition calcular_digito_verificacao :: "nat list \<Rightarrow> py_exception + int" where
  "calcular_digito_verificacao imei =
     (if length imei \<noteq> 14 then Inl (ValueError ImeiLength14)
      else (case luhn_loop 0 (rev imei) 0 of
              Inl e \<Rightarrow> Inl e
            | Inr soma \<Rightarrow> Inr ((10 - (soma mod 10)) mod 10)))"

text \<open>
  The check digit as the specification words it: reverse the digits, double the digit at
  every odd position of the reversed sequence and subtract 9 from a doubled value above 9,
  sum, and return (10 - (sum mod 10)) mod 10.
\<close>

definition spec_transform :: "nat \<times> int \<Rightarrow> int" where
  "spec_transform p =
     (case p of (i, d) \<Rightarrow> if odd i then (if 2 * d > 9 then 2 * d - 9 else 2 * d) else d)"

definition spec_check_digit :: "int list \<Rightarrow> int" where
  "spec_check_digit ds =
     (10 - (sum_list (map spec_transform (enumerate 0 (rev ds))) mod 10)) mod 10"

definition digit_value :: "nat \<Rightarrow> int" where
  \<comment> \<open>the value of one of the characters 0 to 9\<close>
  "digit_value c = int c - 48"


section \<open>The remote service and the state of the program\<close>

text \<open>
  A JSON document as \<open>response.json()\<close> returns it. A dict is the list of its items, one
  pair per key. Numbers are restricted to integers: the code only tests a number for
  truth and copies it.
\<close>

datatype json =
    JNull
  | JBool bool
  | JNum int
  | JStr string
  | JArr "json list"
  | JObj "(string \<times> json) list"

fun truthy :: "json \<Rightarrow> bool" where
  "truthy JNull = False"
| "truthy (JBool b) = b"
| "truthy (JNum n) = (n \<noteq> 0)"
| "truthy (JStr s) = (s \<noteq> [])"
| "truthy (JArr xs) = (xs \<noteq> [])"
| "truthy (JObj kv) = (kv \<noteq> [])"

definition py_get :: "(string \<times> json) list \<Rightarrow> string \<Rightarrow> json" where
  \<comment> \<open>\<open>d.get(k)\<close>: \<open>None\<close> (here \<open>JNull\<close>) for a missing key\<close>
  "py_get kv k = (case map_of kv k of None \<Rightarrow> JNull | Some v \<Rightarrow> v)"

text \<open>
  What one \<open>session.get(url)\<close> followed by \<open>raise_for_status()\<close> and \<open>response.json()\<close>
  amounts to: one of the three raises, or the parsed body is returned.
\<close>

datatype response = Raises py_exception | Payload json

text \<open>
  The service is outside the program. Its answer may depend on the URL and on how many
  requests were sent before.
\<close>

type_synonym transport = "nat \<Rightarrow> string \<Rightarrow> response"

record device_info =
  IMEI :: string
  Marca :: json
  Modelo :: json
  Sistema_Operacional :: string

datatype log_record =
    Info_cache string                 \<comment> \<open>"Retornando dados do cache para IMEI: {imei}"\<close>
  | Error_api string json             \<comment> \<open>"Erro na API para IMEI {imei}: {data.get('message')}"\<close>
  | Error_request string py_exception \<comment> \<open>"Erro na requisicao para IMEI {imei}: {e}"\<close>

datatype message =
    MissingInput                          \<comment> \<open>"Por favor, insira a chave da API e pelo menos um IMEI."\<close>
  | NoValidImei string                    \<comment> \<open>"Nenhum IMEI valido encontrado para: {imei}"\<close>
  | InvalidImei string py_exception       \<comment> \<open>"IMEI invalido: {imei}\nMotivo: {e}"\<close>
  | ProcessingError string py_exception   \<comment> \<open>"Erro ao processar IMEI {imei}: {e}"\<close>
  | NoResults                             \<comment> \<open>"Nenhum resultado encontrado."\<close>
  | QueryDone                             \<comment> \<open>"Consulta concluida. Use o menu 'Arquivo' ..."\<close>

datatype dialog = ShowError message | ShowInfo message

text \<open>
  Everything the code reads and writes: the global \<open>CACHE\<close> (a dict keeps its items in
  insertion order), the URLs sent to the service, the records handed to \<open>logging\<close>, the
  widgets of the view, and the local list \<open>all_device_info\<close> of \<open>process_imeis\<close>.
\<close>

record world =
  CACHE :: "(string \<times> device_info) list"
  requests :: "string list"
  log_records :: "log_record list"
  result_text :: "device_info list"
  progress_maximum :: nat
  progress_value :: nat
  export_data :: "device_info list option"
  dialogs :: "dialog list"
  all_device_info :: "device_info list"


section \<open>IMEModel.get\_device\_info\<close>

definition API_URL :: string where
  "API_URL = ''https://dash.imei.info/api/check/0/''"

definition request_url :: "string \<Rightarrow> string \<Rightarrow> string" where
  \<comment> \<open>\<open>f"{API_URL}?API_KEY={api_key}&imei={imei}"\<close>\<close>
  "request_url api_key imei = API_URL @ ''?API_KEY='' @ api_key @ ''&imei='' @ imei"

text \<open>
  How the \<open>try\<close> block ends when nothing is raised: \<open>return device_info\<close>, or the
  \<open>else\<close> branch, which logs \<open>data.get('message')\<close> and returns \<open>None\<close>.
\<close>

datatype outcome = Found device_info | NotFound json

text \<open>
  The part of the \<open>try\<close> block that follows \<open>data = await response.json()\<close>. A \<open>.get\<close> on
  a value that is not a dict raises.
\<close>

definition read_payload :: "string \<Rightarrow> json \<Rightarrow> py_exception + outcome" where
  "read_payload imei data =
     (case data of
        JObj kv \<Rightarrow>
          if py_get kv ''status'' = JStr ''Done'' \<and> truthy (py_get kv ''result'')
          then (case py_get kv ''result'' of
                  JObj r \<Rightarrow>
                    Inr (Found \<lparr>IMEI = imei, Marca = py_get r ''brand'',
                                Modelo = py_get r ''model'',
                                Sistema_Operacional = ''Desconhecido''\<rparr>)
                | _ \<Rightarrow> Inl AttributeError)
          else Inr (NotFound (py_get kv ''message''))
      | _ \<Rightarrow> Inl AttributeError)"

text \<open>The \<open>try\<close> block as a whole: what it raises, or how it ends.\<close>

definition try_request :: "string \<Rightarrow> response \<Rightarrow> py_exception + outcome" where
  "try_request imei resp =
     (case resp of Raises e \<Rightarrow> Inl e | Payload data \<Rightarrow> read_payload imei data)"

text \<open>
  What follows \<open>session.get(url)\<close> once the HTTP layer has answered or has raised: the rest
  of the \<open>try\<close> block and the clause \<open>except Exception\<close>. \<open>w1\<close> is the world in which the
  request has been sent.
\<close>

definition answer_request :: "string \<Rightarrow> response \<Rightarrow> world \<Rightarrow> device_info option \<times> world" where
  "answer_request imei resp w1 =
     (case try_request imei resp of
        Inr (Found device) \<Rightarrow>
          (Some device, w1\<lparr>CACHE := AList.update imei device (CACHE w1)\<rparr>)
      | Inr (NotFound msg) \<Rightarrow>
          (None, w1\<lparr>log_records := log_records w1 @ [Error_api imei msg]\<rparr>)
      | Inl e \<Rightarrow>
          (None, w1\<lparr>log_records := log_records w1 @ [Error_request imei e]\<rparr>))"

definition get_device_info ::
  "string \<Rightarrow> string \<Rightarrow> transport \<Rightarrow> world \<Rightarrow> device_info option \<times> world" where
  "get_device_info imei api_key tr w =
     (case map_of (CACHE w) imei of
        Some d \<Rightarrow> (Some d, w\<lparr>log_records := log_records w @ [Info_cache imei]\<rparr>)
      | None \<Rightarrow>
          (let url = request_url api_key imei;
               resp = tr (length (requests w)) url;
               w1 = w\<lparr>requests := requests w @ [url]\<rparr>
           in answer_request imei resp w1))"

text \<open>
  \<open>get_device_info\<close> above is the function on the runs in which the awaited request ends
  with an answer or with an exception derived from \<open>Exception\<close>. While the request is
  awaited, the event loop can also deliver an exception that derives from
  \<open>BaseException\<close> only: the cancellation of the task, or an interrupt. The clause
  \<open>except Exception\<close> does not catch these, and the call ends with the exception instead
  of a value. \<open>Inl\<close> is the exception leaving the function.
\<close>

datatype signal = CancelledError | KeyboardInterrupt | SystemExit

datatype delivery = Answered response | Interrupted signal

type_synonym interruptible_transport = "nat \<Rightarrow> string \<Rightarrow> delivery"

definition get_device_info_interruptible ::
  "string \<Rightarrow> string \<Rightarrow> interruptible_transport \<Rightarrow> world
     \<Rightarrow> (signal + device_info option) \<times> world" where
  "get_device_info_interruptible imei api_key itr w =
     (case map_of (CACHE w) imei of
        Some d \<Rightarrow> (Inr (Some d), w\<lparr>log_records := log_records w @ [Info_cache imei]\<rparr>)
      | None \<Rightarrow>
          (let url = request_url api_key imei;
               w1 = w\<lparr>requests := requests w @ [url]\<rparr>
           in case itr (length (requests w)) url of
                Interrupted s \<Rightarrow> (Inl s, w1)
              | Answered resp \<Rightarrow>
                  (case answer_request imei resp w1 of (r, w2) \<Rightarrow> (Inr r, w2))))"


section \<open>The view, as far as the controller uses it\<close>

definition show_error :: "message \<Rightarrow> world \<Rightarrow> world" where
  "show_error m w = w\<lparr>dialogs := dialogs w @ [ShowError m]\<rparr>"

definition show_info :: "message \<Rightarrow> world \<Rightarrow> world" where
  "show_info m w = w\<lparr>dialogs := dialogs w @ [ShowInfo m]\<rparr>"

definition clear_results :: "world \<Rightarrow> world" where
  "clear_results w = w\<lparr>result_text := []\<rparr>"

definition add_result :: "device_info \<Rightarrow> world \<Rightarrow> world" where
  "add_result d w = w\<lparr>result_text := result_text w @ [d]\<rparr>"

definition set_progress_max :: "nat \<Rightarrow> world \<Rightarrow> world" where
  "set_progress_max n w = w\<lparr>progress_maximum := n\<rparr>"

definition update_progress :: "world \<Rightarrow> world" where
  "update_progress w = w\<lparr>progress_value := progress_value w + 1\<rparr>"

definition set_export_data :: "device_info list \<Rightarrow> world \<Rightarrow> world" where
  "set_export_data ds w = show_info QueryDone (w\<lparr>export_data := Some ds\<rparr>)"


section \<open>IMEController.process\_imeis\<close>

definition record_device :: "device_info \<Rightarrow> world \<Rightarrow> world" where
  \<comment> \<open>\<open>all_device_info.append(device_info); self.view.add_result(device_info)\<close>\<close>
  "record_device d w = add_result d (w\<lparr>all_device_info := all_device_info w @ [d]\<rparr>)"

text \<open>
  The loop \<open>for digito in range(10): ... break ... else: ...\<close> over the digits still to
  try. The empty list is the \<open>else\<close> of the \<open>for\<close>, reached when no digit hit \<open>break\<close>.
\<close>

fun completion_loop :: "string \<Rightarrow> transport \<Rightarrow> string \<Rightarrow> nat list \<Rightarrow> world \<Rightarrow> world" where
  "completion_loop api_key tr imei [] w = show_error (NoValidImei imei) w"
| "completion_loop api_key tr imei (digito # ds) w =
     (case get_device_info (imei @ py_str_digit digito) api_key tr w of
        (Some device, w1) \<Rightarrow> record_device device w1
      | (None, w1) \<Rightarrow> completion_loop api_key tr imei ds w1)"

text \<open>
  The body of the \<open>try\<close> for one entry. The only \<open>raise\<close> comes before any effect, so an
  exception carries no state.
\<close>

definition try_imei :: "string \<Rightarrow> transport \<Rightarrow> string \<Rightarrow> world \<Rightarrow> py_exception + world" where
  "try_imei api_key tr imei w =
     (if \<not> py_isdigit imei \<or> length imei \<notin> {14, 15} then Inl (ValueError ImeiInvalido)
      else Inr (update_progress
        (if length imei = 14 then completion_loop api_key tr imei [0..<10] w
         else (case get_device_info imei api_key tr w of
                 (Some device, w1) \<Rightarrow> record_device device w1
               | (None, w1) \<Rightarrow> w1))))"

definition process_imei :: "string \<Rightarrow> transport \<Rightarrow> world \<Rightarrow> string \<Rightarrow> world" where
  \<comment> \<open>one round of \<open>for imei in imeis\<close>, with the two \<open>except\<close> clauses\<close>
  "process_imei api_key tr w imei =
     (if py_strip imei \<noteq> [] then
        (case try_imei api_key tr imei w of
           Inr w' \<Rightarrow> w'
         | Inl (ValueError v) \<Rightarrow> show_error (InvalidImei imei (ValueError v)) w
         | Inl e \<Rightarrow> show_error (ProcessingError imei e) w)
      else w)"

definition process_loop :: "string \<Rightarrow> transport \<Rightarrow> string list \<Rightarrow> world \<Rightarrow> world" where
  "process_loop api_key tr imeis w = foldl (process_imei api_key tr) w imeis"

definition process_imeis :: "string \<Rightarrow> transport \<Rightarrow> string list \<Rightarrow> world \<Rightarrow> world" where
  \<comment> \<open>\<open>api_key\<close> and \<open>imeis\<close> are what \<open>view.get_api_key()\<close> and \<open>view.get_imeis()\<close> return\<close>
  "process_imeis api_key tr imeis w =
     (if api_key = [] \<or> imeis = [] then show_error MissingInput w
      else
        (let w1 = set_progress_max (length imeis) (clear_results w);
             w2 = process_loop api_key tr imeis (w1\<lparr>all_device_info := []\<rparr>)
         in if all_device_info w2 \<noteq> [] then set_export_data (all_device_info w2) w2
            else show_info NoResults w2))"


section \<open>A fresh process and the stub services of the test cases\<close>

definition initial_world :: world where
  "initial_world =
     \<lparr>CACHE = [], requests = [], log_records = [], result_text = [], progress_maximum = 0,
      progress_value = 0, export_data = None, dialogs = [], all_device_info = []\<rparr>"

definition done_payload :: json where
  "done_payload =
     JObj [(''status'', JStr ''Done''),
           (''result'', JObj [(''brand'', JStr ''Apple''), (''model'', JStr ''iPhone 11'')])]"

definition error_payload :: json where
  "error_payload = JObj [(''status'', JStr ''Error''), (''message'', JStr ''IMEI not found'')]"

definition stub_device :: "string \<Rightarrow> device_info" where
  "stub_device imei =
     \<lparr>IMEI = imei, Marca = JStr ''Apple'', Modelo = JStr ''iPhone 11'',
      Sistema_Operacional = ''Desconhecido''\<rparr>"

definition always_done :: transport where
  "always_done n url = Payload done_payload"

definition always_error :: transport where
  "always_error n url = Payload error_payload"

definition always_disconnected :: transport where
  "always_disconnected n url = Raises ClientConnectionError"

definition is_dict :: "json \<Rightarrow> bool" where
  "is_dict j = (case j of JObj _ \<Rightarrow> True | _ \<Rightarrow> False)"


definition only_digit_7 :: transport where
  \<comment> \<open>the service knows 123456789012347 and nothing else\<close>
  "only_digit_7 n url =
     (if url = request_url ''k'' ''123456789012347'' then Payload done_payload
      else Payload error_payload)"

definition fails_ten_times :: transport where
  \<comment> \<open>the first ten requests are cut off, every later one is answered\<close>
  "fails_ten_times n url = (if n < 10 then Raises ClientConnectionError else Payload done_payload)"


section \<open>Notions used in the statements\<close>

definition valid_imei :: "string \<Rightarrow> bool" where
  \<comment> \<open>the entry passes the test of line 110: it does not raise "IMEI invalido."\<close>
  "valid_imei imei \<longleftrightarrow> py_isdigit imei \<and> length imei \<in> {14, 15}"

definition candidate :: "string \<Rightarrow> nat \<Rightarrow> string" where
  \<comment> \<open>\<open>imei_completo\<close> for the digit \<open>d\<close>\<close>
  "candidate imei d = imei @ py_str_digit d"

definition cached :: "world \<Rightarrow> string \<Rightarrow> bool" where
  "cached w imei \<longleftrightarrow> map_of (CACHE w) imei \<noteq> None"

definition answers_found :: "string \<Rightarrow> response \<Rightarrow> bool" where
  \<comment> \<open>the answer makes the \<open>try\<close> block return a record\<close>
  "answers_found imei resp =
     (case try_request imei resp of Inr (Found _) \<Rightarrow> True | _ \<Rightarrow> False)"

text \<open>
  The query for the digit \<open>d\<close> succeeds when it is the \<open>j\<close>-th query after \<open>w\<close> and all
  queries before it were requests: the candidate is cached, or the service answers the
  request number \<open>length (requests w) + j\<close> with a record.
\<close>

definition query_ok :: "string \<Rightarrow> transport \<Rightarrow> string \<Rightarrow> world \<Rightarrow> nat \<Rightarrow> nat \<Rightarrow> bool" where
  "query_ok api_key tr imei w j d \<longleftrightarrow>
     cached w (candidate imei d)
     \<or> answers_found (candidate imei d)
          (tr (length (requests w) + j) (request_url api_key (candidate imei d)))"

definition candidate_ok :: "string \<Rightarrow> transport \<Rightarrow> string \<Rightarrow> world \<Rightarrow> nat \<Rightarrow> bool" where
  \<comment> \<open>in \<open>range(10)\<close> the digit is its own position\<close>
  "candidate_ok api_key tr imei w d = query_ok api_key tr imei w d d"

text \<open>What a run from \<open>w\<close> to \<open>w'\<close> has added to the traces.\<close>

definition new_requests :: "world \<Rightarrow> world \<Rightarrow> string list" where
  "new_requests w w' = drop (length (requests w)) (requests w')"

definition new_log_records :: "world \<Rightarrow> world \<Rightarrow> log_record list" where
  "new_log_records w w' = drop (length (log_records w)) (log_records w')"

definition new_dialogs :: "world \<Rightarrow> world \<Rightarrow> dialog list" where
  "new_dialogs w w' = drop (length (dialogs w)) (dialogs w')"

definition attempted :: "string \<Rightarrow> string \<Rightarrow> world \<Rightarrow> world \<Rightarrow> bool" where
  \<comment> \<open>between \<open>w\<close> and \<open>w'\<close> a call of \<open>get_device_info\<close> for \<open>imei\<close> has left its trace:
      a cache hit or a request\<close>
  "attempted api_key imei w w' \<longleftrightarrow>
     Info_cache imei \<in> set (new_log_records w w')
     \<or> request_url api_key imei \<in> set (new_requests w w')"

definition extends :: "world \<Rightarrow> world \<Rightarrow> bool" where
  \<comment> \<open>the traces of \<open>w'\<close> continue those of \<open>w\<close>, and no cache entry is lost or changed\<close>
  "extends w w' \<longleftrightarrow>
     prefix (dialogs w) (dialogs w') \<and> prefix (requests w) (requests w')
     \<and> prefix (log_records w) (log_records w')
     \<and> (\<forall>c d. map_of (CACHE w) c = Some d \<longrightarrow> map_of (CACHE w') c = Some d)"

definition first_query :: "string \<Rightarrow> string" where
  \<comment> \<open>the first identifier looked up for a valid entry\<close>
  "first_query imei = (if length imei = 14 then candidate imei 0 else imei)"

text \<open>
  The search of the loop over \<open>range(10)\<close> without what it shows: the record of the first
  candidate whose lookup succeeds, if there is one, and the world after the lookups.
\<close>

fun completion_search ::
  "string \<Rightarrow> transport \<Rightarrow> string \<Rightarrow> nat list \<Rightarrow> world \<Rightarrow> device_info option \<times> world" where
  "completion_search api_key tr imei [] w = (None, w)"
| "completion_search api_key tr imei (digito # ds) w =
     (case get_device_info (imei @ py_str_digit digito) api_key tr w of
        (Some device, w1) \<Rightarrow> (Some device, w1)
      | (None, w1) \<Rightarrow> completion_search api_key tr imei ds w1)"

definition resolve_entry ::
  "string \<Rightarrow> transport \<Rightarrow> string \<Rightarrow> world \<Rightarrow> device_info option \<times> world" where
  \<comment> \<open>the lookups made for a valid entry: the search for 14 digits, one call for 15\<close>
  "resolve_entry api_key tr imei w =
     (if length imei = 14 then completion_search api_key tr imei [0..<10] w
      else get_device_info imei api_key tr w)"

text \<open>
  How one entry of the batch ends when it is processed in the world \<open>w\<close>, and how the
  entries of a batch end, each processed in the world that the entries before it left.
\<close>

datatype entry_result = Blank | Invalid | Success device_info | Failure

definition entry_result_of :: "string \<Rightarrow> transport \<Rightarrow> world \<Rightarrow> string \<Rightarrow> entry_result" where
  "entry_result_of api_key tr w imei =
     (if py_strip imei = [] then Blank
      else if \<not> valid_imei imei then Invalid
      else (case fst (resolve_entry api_key tr imei w) of
              Some d \<Rightarrow> Success d
            | None \<Rightarrow> Failure))"

fun batch_results :: "string \<Rightarrow> transport \<Rightarrow> string list \<Rightarrow> world \<Rightarrow> entry_result list" where
  "batch_results api_key tr [] w = []"
| "batch_results api_key tr (imei # imeis) w =
     entry_result_of api_key tr w imei
       # batch_results api_key tr imeis (process_imei api_key tr w imei)"

definition records_of :: "entry_result \<Rightarrow> device_info list" where
  "records_of r = (case r of Success d \<Rightarrow> [d] | _ \<Rightarrow> [])"

definition successes :: "entry_result list \<Rightarrow> device_info list" where
  \<comment> \<open>the records of the entries that succeeded, in the order of the entries\<close>
  "successes rs = concat (map records_of rs)"

definition start_world :: "nat \<Rightarrow> world \<Rightarrow> world" where
  \<comment> \<open>the world in which the loop of \<open>process_imeis\<close> starts, for a batch of \<open>n\<close> entries\<close>
  "start_world n w = (set_progress_max n (clear_results w))\<lparr>all_device_info := []\<rparr>"

definition world_before :: "string \<Rightarrow> transport \<Rightarrow> string list \<Rightarrow> world \<Rightarrow> nat \<Rightarrow> world" where
  \<comment> \<open>the world in which the entry number \<open>i\<close> is processed, the loop having started in \<open>w\<close>\<close>
  "world_before api_key tr imeis w i = process_loop api_key tr (take i imeis) w"


section \<open>The check digit\<close>

lemma py_decimal_ascii: "is_ascii_digit c \<Longrightarrow> py_decimal c = Some (c - 48)"
  by (simp add: py_decimal_def decimal_zeros_def is_ascii_digit_def)

lemma py_int_char_digit: "is_ascii_digit c \<Longrightarrow> py_int_char c = Inr (digit_value c)"
  by (simp add: py_int_char_def py_decimal_ascii digit_value_def is_ascii_digit_def)

lemma ascii_digit_is_decimal: "is_ascii_digit c \<Longrightarrow> is_decimal_digit c"
  by (simp add: is_decimal_digit_def decimal_zeros_def is_ascii_digit_def)

lemma py_int_char_decimal:
  assumes "is_decimal_digit c"
  shows "\<exists>d. py_int_char c = Inr d \<and> 0 \<le> d \<and> d \<le> 9"
proof -
  from assms have "filter (\<lambda>z. z \<le> c \<and> c < z + 10) decimal_zeros \<noteq> []"
    by (auto simp: is_decimal_digit_def list_ex_iff filter_empty_conv)
  then obtain z zs where f: "filter (\<lambda>z. z \<le> c \<and> c < z + 10) decimal_zeros = z # zs"
    by (cases "filter (\<lambda>z. z \<le> c \<and> c < z + 10) decimal_zeros") auto
  then have "z \<in> set (filter (\<lambda>z. z \<le> c \<and> c < z + 10) decimal_zeros)"
    by simp
  then have "z \<le> c \<and> c < z + 10" by simp
  with f show ?thesis
    by (simp add: py_int_char_def py_decimal_def)
qed

lemma py_int_char_other:
  assumes "\<not> is_decimal_digit c"
  shows "py_int_char c = Inl (ValueError (InvalidLiteral c))"
proof -
  from assms have "filter (\<lambda>z. z \<le> c \<and> c < z + 10) decimal_zeros = []"
    by (auto simp: is_decimal_digit_def list_ex_iff filter_empty_conv)
  then show ?thesis
    by (simp add: py_int_char_def py_decimal_def)
qed

lemma luhn_loop_digits:
  "list_all is_ascii_digit cs \<Longrightarrow>
   luhn_loop i cs soma =
     Inr (soma + sum_list (map spec_transform (enumerate i (map digit_value cs))))"
proof (induction cs arbitrary: i soma)
  case Nil
  then show ?case by simp
next
  case (Cons c cs)
  then have c: "py_int_char c = Inr (digit_value c)" and cs: "list_all is_ascii_digit cs"
    by (simp_all add: py_int_char_digit)
  have "luhn_loop i (c # cs) soma
          = luhn_loop (Suc i) cs (soma + spec_transform (i, digit_value c))"
    by (simp add: c spec_transform_def odd_iff_mod_2_eq_one mult.commute)
  then show ?case
    by (simp add: Cons.IH [OF cs])
qed

lemma luhn_loop_decimal:
  "list_all is_decimal_digit cs \<Longrightarrow> \<exists>s. luhn_loop i cs soma = Inr s"
proof (induction cs arbitrary: i soma)
  case Nil
  then show ?case by simp
next
  case (Cons c cs)
  then have "is_decimal_digit c" and cs: "list_all is_decimal_digit cs"
    by simp_all
  from py_int_char_decimal [OF this(1)] obtain d where "py_int_char c = Inr d"
    by blast
  with Cons.IH [OF cs] show ?case by simp
qed

lemma luhn_loop_non_decimal:
  "\<not> list_all is_decimal_digit cs \<Longrightarrow> \<exists>m. luhn_loop i cs soma = Inl (ValueError m)"
proof (induction cs arbitrary: i soma)
  case Nil
  then show ?case by simp
next
  case (Cons c cs)
  show ?case
  proof (cases "is_decimal_digit c")
    case True
    with Cons.prems have rest: "\<not> list_all is_decimal_digit cs" by simp
    from py_int_char_decimal [OF True] obtain d where "py_int_char c = Inr d"
      by blast
    with Cons.IH [OF rest] show ?thesis by simp
  next
    case False
    then show ?thesis by (simp add: py_int_char_other)
  qed
qed

lemma check_digit_range:
  "0 \<le> (10 - (s mod 10)) mod 10 \<and> (10 - (s mod 10)) mod 10 \<le> (9::int)"
  by presburger

lemmas check_digit_eval = calcular_digito_verificacao_def codepoints_of_def py_int_char_def
  py_decimal_def decimal_zeros_def

text \<open>
  C2. For a string of exactly 14 decimal digits, \<open>calcular_digito_verificacao\<close> returns the
  digit that the specification describes (reverse, double the odd positions of the
  reversed sequence with 9 subtracted above 9, sum, (10 - (sum mod 10)) mod 10), and that
  digit lies between 0 and 9. Being a function of its argument, the result is the same at
  every call.
\<close>

theorem check_digit_refines_spec:
  assumes "length imei = 14" and "list_all is_ascii_digit imei"
  shows "calcular_digito_verificacao imei = Inr (spec_check_digit (map digit_value imei))
         \<and> 0 \<le> spec_check_digit (map digit_value imei)
         \<and> spec_check_digit (map digit_value imei) \<le> 9"
proof -
  from assms(2) have "list_all is_ascii_digit (rev imei)"
    by (simp add: list_all_iff)
  from luhn_loop_digits [OF this, of 0 0]
  have "calcular_digito_verificacao imei = Inr (spec_check_digit (map digit_value imei))"
    using assms(1) by (simp add: calcular_digito_verificacao_def spec_check_digit_def rev_map)
  moreover have "0 \<le> spec_check_digit (map digit_value imei)
      \<and> spec_check_digit (map digit_value imei) \<le> 9"
    unfolding spec_check_digit_def by (rule check_digit_range)
  ultimately show ?thesis by simp
qed

theorem check_digit_refines_spec_witness:
  "length (codepoints_of ''49015420323751'') = 14
   \<and> list_all is_ascii_digit (codepoints_of ''49015420323751'')
   \<and> calcular_digito_verificacao (codepoints_of ''49015420323751'') = Inr 0
   \<and> spec_check_digit (map digit_value (codepoints_of ''49015420323751'')) = 0"
  using check_digit_refines_spec [of "codepoints_of ''49015420323751''"]
  by (simp add: codepoints_of_def is_ascii_digit_def spec_check_digit_def spec_transform_def
        digit_value_def enumerate_eq_zip)

text \<open>
  C4, as the code has it. \<open>calcular_digito_verificacao\<close> returns 2 for the base
  35290986021057 and 2 for the base 86231411165679, where the claim has 3 and 5. For the
  base of the IMEI 490154203237518 it returns 0, not 8.
\<close>

theorem known_vectors_computed:
  "calcular_digito_verificacao (codepoints_of ''35290986021057'') = Inr 2
   \<and> calcular_digito_verificacao (codepoints_of ''86231411165679'') = Inr 2
   \<and> calcular_digito_verificacao (codepoints_of ''49015420323751'') = Inr 0"
  by (simp add: check_digit_eval)

text \<open>
  C8, as the code has it. The 14 characters 1234567890123 followed by the Arabic-Indic
  digit three (U+0663) hold a character that is none of 0 to 9, and yet
  \<open>calcular_digito_verificacao\<close> returns a digit: \<open>int\<close> reads U+0663 as 3.
\<close>

theorem arabic_digit_is_accepted:
  "length (codepoints_of ''1234567890123'' @ [1635]) = 14
   \<and> \<not> is_ascii_digit 1635
   \<and> calcular_digito_verificacao (codepoints_of ''1234567890123'' @ [1635]) = Inr 4"
  by (simp add: check_digit_eval is_ascii_digit_def)

text \<open>
  C8, amended. \<open>calcular_digito_verificacao\<close> raises \<open>ValueError\<close> for every input whose
  length is not 14 or that holds a character that is not a Unicode decimal digit, and
  returns a digit between 0 and 9 for every input of exactly 14 Unicode decimal digits.
  The characters 0 to 9 are decimal digits.
\<close>

theorem check_digit_raises_or_returns:
  "(length imei \<noteq> 14 \<or> \<not> list_all is_decimal_digit imei \<longrightarrow>
      (\<exists>m. calcular_digito_verificacao imei = Inl (ValueError m)))
   \<and> (length imei = 14 \<and> list_all is_decimal_digit imei \<longrightarrow>
      (\<exists>d. calcular_digito_verificacao imei = Inr d \<and> 0 \<le> d \<and> d \<le> 9))
   \<and> (list_all is_ascii_digit imei \<longrightarrow> list_all is_decimal_digit imei)"
proof (intro conjI impI)
  assume bad: "length imei \<noteq> 14 \<or> \<not> list_all is_decimal_digit imei"
  show "\<exists>m. calcular_digito_verificacao imei = Inl (ValueError m)"
  proof (cases "length imei = 14")
    case False
    then show ?thesis by (simp add: calcular_digito_verificacao_def)
  next
    case True
    with bad have "\<not> list_all is_decimal_digit (rev imei)" by (simp add: list_all_iff)
    from luhn_loop_non_decimal [OF this, of 0 0] True show ?thesis
      by (auto simp: calcular_digito_verificacao_def)
  qed
next
  assume ok: "length imei = 14 \<and> list_all is_decimal_digit imei"
  then have "list_all is_decimal_digit (rev imei)" by (simp add: list_all_iff)
  from luhn_loop_decimal [OF this, of 0 0] ok
  show "\<exists>d. calcular_digito_verificacao imei = Inr d \<and> 0 \<le> d \<and> d \<le> 9"
    using check_digit_range by (auto simp: calcular_digito_verificacao_def)
next
  assume "list_all is_ascii_digit imei"
  then show "list_all is_decimal_digit imei"
    by (simp add: list_all_iff ascii_digit_is_decimal)
qed

theorem check_digit_raises_or_returns_witness:
  "length (codepoints_of ''1234567890123A'') = 14
   \<and> calcular_digito_verificacao (codepoints_of ''1234567890123A'')
       = Inl (ValueError (InvalidLiteral 65))
   \<and> calcular_digito_verificacao (codepoints_of ''123'') = Inl (ValueError ImeiLength14)
   \<and> length (codepoints_of ''12345678901234'') = 14
   \<and> list_all is_decimal_digit (codepoints_of ''12345678901234'')
   \<and> calcular_digito_verificacao (codepoints_of ''12345678901234'') = Inr 3"
  using check_digit_raises_or_returns [of "codepoints_of ''1234567890123A''"]
    check_digit_raises_or_returns [of "codepoints_of ''123''"]
    check_digit_raises_or_returns [of "codepoints_of ''12345678901234''"]
  by (simp add: check_digit_eval is_decimal_digit_def)


section \<open>The four courses of get\_device\_info\<close>

lemma update_fresh: "map_of al k = None \<Longrightarrow> AList.update k v al = al @ [(k, v)]"
  by (induction al) (auto split: if_splits)

lemma get_device_info_hit:
  "map_of (CACHE w) imei = Some d \<Longrightarrow>
   get_device_info imei api_key tr w
     = (Some d, w\<lparr>log_records := log_records w @ [Info_cache imei]\<rparr>)"
  by (simp add: get_device_info_def answer_request_def)

lemma get_device_info_raise:
  "map_of (CACHE w) imei = None \<Longrightarrow>
   try_request imei (tr (length (requests w)) (request_url api_key imei)) = Inl e \<Longrightarrow>
   get_device_info imei api_key tr w
     = (None, w\<lparr>requests := requests w @ [request_url api_key imei],
                 log_records := log_records w @ [Error_request imei e]\<rparr>)"
  by (simp add: get_device_info_def answer_request_def Let_def)

lemma get_device_info_not_found:
  "map_of (CACHE w) imei = None \<Longrightarrow>
   try_request imei (tr (length (requests w)) (request_url api_key imei)) = Inr (NotFound m) \<Longrightarrow>
   get_device_info imei api_key tr w
     = (None, w\<lparr>requests := requests w @ [request_url api_key imei],
                 log_records := log_records w @ [Error_api imei m]\<rparr>)"
  by (simp add: get_device_info_def answer_request_def Let_def)

lemma get_device_info_found:
  "map_of (CACHE w) imei = None \<Longrightarrow>
   try_request imei (tr (length (requests w)) (request_url api_key imei)) = Inr (Found d) \<Longrightarrow>
   get_device_info imei api_key tr w
     = (Some d, w\<lparr>requests := requests w @ [request_url api_key imei],
                   CACHE := CACHE w @ [(imei, d)]\<rparr>)"
  by (simp add: get_device_info_def answer_request_def Let_def update_fresh)

text \<open>Every call of \<open>get_device_info\<close> takes one of four courses.\<close>

lemma get_device_info_cases:
  obtains (hit) d where "map_of (CACHE w) imei = Some d"
      "get_device_info imei api_key tr w
         = (Some d, w\<lparr>log_records := log_records w @ [Info_cache imei]\<rparr>)"
  | (found) d where "map_of (CACHE w) imei = None"
      "try_request imei (tr (length (requests w)) (request_url api_key imei)) = Inr (Found d)"
      "get_device_info imei api_key tr w
         = (Some d, w\<lparr>requests := requests w @ [request_url api_key imei],
                       CACHE := CACHE w @ [(imei, d)]\<rparr>)"
  | (not_found) m where "map_of (CACHE w) imei = None"
      "try_request imei (tr (length (requests w)) (request_url api_key imei)) = Inr (NotFound m)"
      "get_device_info imei api_key tr w
         = (None, w\<lparr>requests := requests w @ [request_url api_key imei],
                     log_records := log_records w @ [Error_api imei m]\<rparr>)"
  | (raised) e where "map_of (CACHE w) imei = None"
      "try_request imei (tr (length (requests w)) (request_url api_key imei)) = Inl e"
      "get_device_info imei api_key tr w
         = (None, w\<lparr>requests := requests w @ [request_url api_key imei],
                     log_records := log_records w @ [Error_request imei e]\<rparr>)"
proof (cases "map_of (CACHE w) imei")
  case (Some d)
  then show ?thesis using hit get_device_info_hit by blast
next
  case None
  show ?thesis
  proof (cases "try_request imei (tr (length (requests w)) (request_url api_key imei))")
    case (Inl e)
    then show ?thesis using raised None get_device_info_raise by blast
  next
    case (Inr out)
    then show ?thesis
      using None found not_found get_device_info_found get_device_info_not_found
      by (cases out) blast+
  qed
qed

lemma get_device_info_cache_kept:
  assumes "map_of (CACHE w) c = Some d"
  shows "map_of (CACHE (snd (get_device_info imei api_key tr w))) c = Some d"
proof (cases rule: get_device_info_cases [where w=w and imei=imei and tr=tr and api_key=api_key])
  case (found d')
  with assms have "c \<noteq> imei" by auto
  with assms found show ?thesis by (simp add: map_add_def)
qed (use assms in simp_all)

text \<open>
  C5. \<open>get_device_info\<close> looks in the cache first, and a hit returns the cached record
  without a request. A successful resolution after a miss appends one cache entry and
  sends one request. After any successful resolution a second call with the same
  identifier, whatever the service would answer, returns the same record and leaves the
  requests and the cache as they were. No other call removes the entry.
\<close>

theorem resolve_uses_cache:
  "(map_of (CACHE w) imei = Some d \<longrightarrow>
      get_device_info imei api_key tr w
        = (Some d, w\<lparr>log_records := log_records w @ [Info_cache imei]\<rparr>))
   \<and> (map_of (CACHE w) imei = None \<and> get_device_info imei api_key tr w = (Some d, w1) \<longrightarrow>
      CACHE w1 = CACHE w @ [(imei, d)]
      \<and> requests w1 = requests w @ [request_url api_key imei])
   \<and> (get_device_info imei api_key tr w = (Some d, w1) \<longrightarrow>
      (\<exists>w2. get_device_info imei api_key' tr' w1 = (Some d, w2)
            \<and> requests w2 = requests w1 \<and> CACHE w2 = CACHE w1))
   \<and> (map_of (CACHE w) imei = Some d \<longrightarrow>
      map_of (CACHE (snd (get_device_info other api_key tr w))) imei = Some d)"
proof -
  have hit: "map_of (CACHE w) imei = Some d \<longrightarrow>
      get_device_info imei api_key tr w
        = (Some d, w\<lparr>log_records := log_records w @ [Info_cache imei]\<rparr>)"
    by (simp add: get_device_info_hit)
  have store: "map_of (CACHE w) imei = None \<and> get_device_info imei api_key tr w = (Some d, w1)
      \<longrightarrow> CACHE w1 = CACHE w @ [(imei, d)]
          \<and> requests w1 = requests w @ [request_url api_key imei]"
    by (cases rule: get_device_info_cases [where w=w and imei=imei and tr=tr and api_key=api_key])
      auto
  have again: "\<exists>w2. get_device_info imei api_key' tr' w1 = (Some d, w2)
            \<and> requests w2 = requests w1 \<and> CACHE w2 = CACHE w1"
    if a: "get_device_info imei api_key tr w = (Some d, w1)"
  proof -
    have "map_of (CACHE w1) imei = Some d"
      by (cases rule: get_device_info_cases [where w=w and imei=imei and tr=tr and api_key=api_key])
        (use a in \<open>auto simp: map_add_def\<close>)
    from get_device_info_hit [OF this, of api_key' tr'] show ?thesis
      by simp
  qed
  have kept: "map_of (CACHE w) imei = Some d \<longrightarrow>
      map_of (CACHE (snd (get_device_info other api_key tr w))) imei = Some d"
    by (simp add: get_device_info_cache_kept)
  from hit store again kept show ?thesis
    by blast
qed


lemmas stub_defs = initial_world_def done_payload_def error_payload_def stub_device_def
  always_done_def always_error_def always_disconnected_def

lemmas get_device_info_defs = get_device_info_def answer_request_def try_request_def
  read_payload_def py_get_def Let_def

theorem resolve_uses_cache_witness:
  "map_of (CACHE initial_world) ''123456789012345'' = None
   \<and> get_device_info ''123456789012345'' ''k'' always_done initial_world
       = (Some (stub_device ''123456789012345''),
          initial_world\<lparr>requests := [request_url ''k'' ''123456789012345''],
            CACHE := [(''123456789012345'', stub_device ''123456789012345'')]\<rparr>)
   \<and> (\<exists>w2. get_device_info ''123456789012345'' ''k'' always_disconnected
              (initial_world\<lparr>requests := [request_url ''k'' ''123456789012345''],
                 CACHE := [(''123456789012345'', stub_device ''123456789012345'')]\<rparr>)
              = (Some (stub_device ''123456789012345''), w2)
            \<and> requests w2 = [request_url ''k'' ''123456789012345''])"
proof -
  have miss: "map_of (CACHE initial_world) ''123456789012345'' = None"
    by (simp add: initial_world_def)
  have first: "get_device_info ''123456789012345'' ''k'' always_done initial_world
       = (Some (stub_device ''123456789012345''),
          initial_world\<lparr>requests := [request_url ''k'' ''123456789012345''],
            CACHE := [(''123456789012345'', stub_device ''123456789012345'')]\<rparr>)"
    by (simp add: get_device_info_defs stub_defs)
  from miss first
    resolve_uses_cache [where w = initial_world and imei = "''123456789012345''"
      and d = "stub_device ''123456789012345''" and api_key = "''k''" and tr = always_done
      and ?api_key' = "''k''" and ?tr' = always_disconnected
      and ?w1.0 = "initial_world\<lparr>requests := [request_url ''k'' ''123456789012345''],
            CACHE := [(''123456789012345'', stub_device ''123456789012345'')]\<rparr>"]
  show ?thesis by auto
qed

text \<open>
  C6, as the code has it. A transport failure and a not-found answer return the same value
  \<open>None\<close>: the caller cannot tell them apart.
\<close>

theorem transport_and_not_found_same_value:
  "fst (get_device_info ''123456789012345'' ''k'' always_disconnected initial_world) = None
   \<and> fst (get_device_info ''123456789012345'' ''k'' always_error initial_world) = None
   \<and> fst (get_device_info ''123456789012345'' ''k'' always_disconnected initial_world)
       = fst (get_device_info ''123456789012345'' ''k'' always_error initial_world)"
  by (simp add: get_device_info_defs stub_defs)

text \<open>
  C6, amended. On a cache miss both kinds of failure return \<open>None\<close> and leave the cache
  alone; they differ in the record handed to the log. An exception of the HTTP layer and
  a payload that is not a dict log a request error with the exception; a dict whose
  status is not "Done" or whose result is missing or empty logs an API error with the
  message of the service.
\<close>

theorem resolve_failure_classes:
  assumes "map_of (CACHE w) imei = None"
  shows "(tr (length (requests w)) (request_url api_key imei) = Raises e \<longrightarrow>
            get_device_info imei api_key tr w
              = (None, w\<lparr>requests := requests w @ [request_url api_key imei],
                          log_records := log_records w @ [Error_request imei e]\<rparr>))
       \<and> (tr (length (requests w)) (request_url api_key imei) = Payload data
            \<and> \<not> is_dict data \<longrightarrow>
            get_device_info imei api_key tr w
              = (None, w\<lparr>requests := requests w @ [request_url api_key imei],
                          log_records := log_records w @ [Error_request imei AttributeError]\<rparr>))
       \<and> (tr (length (requests w)) (request_url api_key imei) = Payload (JObj kv)
            \<and> (py_get kv ''status'' \<noteq> JStr ''Done'' \<or> \<not> truthy (py_get kv ''result'')) \<longrightarrow>
            get_device_info imei api_key tr w
              = (None, w\<lparr>requests := requests w @ [request_url api_key imei],
                          log_records := log_records w @ [Error_api imei (py_get kv ''message'')]\<rparr>))"
proof -
  have not_dict: "\<not> is_dict data \<Longrightarrow> read_payload imei data = Inl AttributeError"
    by (cases data) (simp_all add: is_dict_def read_payload_def)
  show ?thesis
    using assms not_dict
    by (auto simp: get_device_info_raise get_device_info_not_found try_request_def
          read_payload_def)
qed

theorem resolve_failure_classes_witness:
  "map_of (CACHE initial_world) ''123456789012345'' = None
   \<and> get_device_info ''123456789012345'' ''k'' always_disconnected initial_world
       = (None, initial_world\<lparr>requests := [request_url ''k'' ''123456789012345''],
            log_records := [Error_request ''123456789012345'' ClientConnectionError]\<rparr>)
   \<and> \<not> is_dict (JStr ''busy'')
   \<and> get_device_info ''123456789012345'' ''k'' (\<lambda>n url. Payload (JStr ''busy'')) initial_world
       = (None, initial_world\<lparr>requests := [request_url ''k'' ''123456789012345''],
            log_records := [Error_request ''123456789012345'' AttributeError]\<rparr>)
   \<and> py_get [(''status'', JStr ''Error''), (''message'', JStr ''IMEI not found'')] ''status''
       \<noteq> JStr ''Done''
   \<and> get_device_info ''123456789012345'' ''k'' always_error initial_world
       = (None, initial_world\<lparr>requests := [request_url ''k'' ''123456789012345''],
            log_records := [Error_api ''123456789012345'' (JStr ''IMEI not found'')]\<rparr>)"
proof -
  have miss: "map_of (CACHE initial_world) ''123456789012345'' = None"
    by (simp add: initial_world_def)
  show ?thesis
    using miss
      resolve_failure_classes [OF miss, where tr = always_disconnected and api_key = "''k''"
        and e = ClientConnectionError]
      resolve_failure_classes [OF miss, where tr = "\<lambda>n url. Payload (JStr ''busy'')"
        and api_key = "''k''" and data = "JStr ''busy''"]
      resolve_failure_classes [OF miss, where tr = always_error and api_key = "''k''"
        and kv = "[(''status'', JStr ''Error''), (''message'', JStr ''IMEI not found'')]"]
    by (simp add: stub_defs is_dict_def py_get_def)
qed

text \<open>
  C10, as the code has it. When the task is cancelled while the request is awaited,
  \<open>get_device_info\<close> returns nothing: \<open>CancelledError\<close> leaves the function.
\<close>

theorem cancellation_leaves_get_device_info:
  "get_device_info_interruptible ''123456789012345'' ''k''
     (\<lambda>n url. Interrupted CancelledError) initial_world
   = (Inl CancelledError,
      initial_world\<lparr>requests := [request_url ''k'' ''123456789012345'']\<rparr>)"
  by (simp add: get_device_info_interruptible_def initial_world_def Let_def)

text \<open>
  C10, amended. When the awaited request ends with an answer or with an exception derived
  from \<open>Exception\<close>, \<open>get_device_info\<close> returns a record or \<open>None\<close>: every exception that
  the \<open>try\<close> block raises, from the HTTP layer, from the JSON parser or from reading the
  payload, is caught, the call returns \<open>None\<close> and the exception ends in the log. An
  exception leaves the function exactly when the identifier is not cached and the event
  loop delivers an exception that derives from \<open>BaseException\<close> only.
\<close>

theorem get_device_info_catches_exceptions:
  "get_device_info_interruptible imei api_key (\<lambda>n url. Answered (tr n url)) w
     = (Inr (fst (get_device_info imei api_key tr w)), snd (get_device_info imei api_key tr w))
   \<and> (map_of (CACHE w) imei = None
        \<and> itr (length (requests w)) (request_url api_key imei) = Answered resp
        \<and> try_request imei resp = Inl e \<longrightarrow>
      get_device_info_interruptible imei api_key itr w
        = (Inr None, w\<lparr>requests := requests w @ [request_url api_key imei],
                        log_records := log_records w @ [Error_request imei e]\<rparr>))
   \<and> (fst (get_device_info_interruptible imei api_key itr w) = Inl s
        \<longleftrightarrow> map_of (CACHE w) imei = None
            \<and> itr (length (requests w)) (request_url api_key imei) = Interrupted s)"
proof -
  have same: "get_device_info_interruptible imei api_key (\<lambda>n url. Answered (tr n url)) w
     = (Inr (fst (get_device_info imei api_key tr w)), snd (get_device_info imei api_key tr w))"
    by (simp add: get_device_info_interruptible_def get_device_info_def Let_def
          split: option.splits prod.splits)
  have caught: "get_device_info_interruptible imei api_key itr w
        = (Inr None, w\<lparr>requests := requests w @ [request_url api_key imei],
                        log_records := log_records w @ [Error_request imei e]\<rparr>)"
    if "map_of (CACHE w) imei = None"
      and "itr (length (requests w)) (request_url api_key imei) = Answered resp"
      and "try_request imei resp = Inl e"
    using that by (simp add: get_device_info_interruptible_def answer_request_def Let_def)
  have leaves: "fst (get_device_info_interruptible imei api_key itr w) = Inl s
        \<longleftrightarrow> map_of (CACHE w) imei = None
            \<and> itr (length (requests w)) (request_url api_key imei) = Interrupted s"
    by (auto simp: get_device_info_interruptible_def Let_def
          split: option.splits delivery.splits prod.splits)
  from same caught leaves show ?thesis by blast
qed

theorem get_device_info_catches_exceptions_witness:
  "map_of (CACHE initial_world) ''123456789012345'' = None
   \<and> try_request ''123456789012345'' (Raises JSONDecodeError) = Inl JSONDecodeError
   \<and> get_device_info_interruptible ''123456789012345'' ''k''
        (\<lambda>n url. Answered (Raises JSONDecodeError)) initial_world
       = (Inr None, initial_world\<lparr>requests := [request_url ''k'' ''123456789012345''],
            log_records := [Error_request ''123456789012345'' JSONDecodeError]\<rparr>)
   \<and> try_request ''123456789012345'' (Payload (JArr [])) = Inl AttributeError
   \<and> get_device_info_interruptible ''123456789012345'' ''k''
        (\<lambda>n url. Answered (Payload (JArr []))) initial_world
       = (Inr None, initial_world\<lparr>requests := [request_url ''k'' ''123456789012345''],
            log_records := [Error_request ''123456789012345'' AttributeError]\<rparr>)"
proof -
  have miss: "map_of (CACHE initial_world) ''123456789012345'' = None"
    and empty: "requests initial_world = []" "log_records initial_world = []"
    by (simp_all add: initial_world_def)
  have json: "try_request ''123456789012345'' (Raises JSONDecodeError) = Inl JSONDecodeError"
    and attr: "try_request ''123456789012345'' (Payload (JArr [])) = Inl AttributeError"
    by (simp_all add: try_request_def read_payload_def)
  note caught = get_device_info_catches_exceptions [where w = initial_world
      and imei = "''123456789012345''" and api_key = "''k''", THEN conjunct2, THEN conjunct1,
      rule_format]
  from caught [where itr = "\<lambda>n url. Answered (Raises JSONDecodeError)"
      and resp = "Raises JSONDecodeError" and e = JSONDecodeError] miss json empty
  have 1: "get_device_info_interruptible ''123456789012345'' ''k''
        (\<lambda>n url. Answered (Raises JSONDecodeError)) initial_world
       = (Inr None, initial_world\<lparr>requests := [request_url ''k'' ''123456789012345''],
            log_records := [Error_request ''123456789012345'' JSONDecodeError]\<rparr>)"
    by simp
  from caught [where itr = "\<lambda>n url. Answered (Payload (JArr []))"
      and resp = "Payload (JArr [])" and e = AttributeError] miss attr empty
  have 2: "get_device_info_interruptible ''123456789012345'' ''k''
        (\<lambda>n url. Answered (Payload (JArr []))) initial_world
       = (Inr None, initial_world\<lparr>requests := [request_url ''k'' ''123456789012345''],
            log_records := [Error_request ''123456789012345'' AttributeError]\<rparr>)"
    by simp
  from miss json attr 1 2 show ?thesis by blast
qed


section \<open>Whitespace and digits\<close>

lemma digit_not_space: "py_isdigit_char c \<Longrightarrow> \<not> py_isspace c"
  by (auto simp: py_isdigit_char_def is_ascii_digit_def py_isspace_def Let_def)

lemma strip_digits:
  assumes "py_isdigit s"
  shows "py_strip s = s"
proof -
  from assms have ne: "s \<noteq> []" and all: "\<forall>c\<in>set s. py_isdigit_char c"
    by (simp_all add: py_isdigit_def list_all_iff)
  have "\<not> py_isspace (hd s)"
    using ne all digit_not_space by (simp add: hd_in_set)
  then have 1: "dropWhile py_isspace s = s"
    using ne by (cases s) auto
  have "\<not> py_isspace (hd (rev s))"
    using ne all digit_not_space by (simp add: hd_rev last_in_set)
  then have 2: "dropWhile py_isspace (rev s) = rev s"
    using ne by (cases "rev s") auto
  show ?thesis by (simp add: py_strip_def 1 2)
qed

lemma valid_not_blank:
  assumes "valid_imei imei"
  shows "py_strip imei \<noteq> []"
proof -
  from assms have d: "py_isdigit imei" by (simp add: valid_imei_def)
  then have "imei \<noteq> []" by (simp add: py_isdigit_def)
  with strip_digits [OF d] show ?thesis by simp
qed

section \<open>The completion loop\<close>

text \<open>What a call leaves alone.\<close>

lemma get_device_info_view:
  assumes "get_device_info imei api_key tr w = (r, w1)"
  shows "dialogs w1 = dialogs w" "result_text w1 = result_text w"
    "all_device_info w1 = all_device_info w" "progress_value w1 = progress_value w"
    "progress_maximum w1 = progress_maximum w" "export_data w1 = export_data w"
  by (cases rule: get_device_info_cases [where w=w and imei=imei and tr=tr and api_key=api_key];
      use assms in auto)+

lemma get_device_info_fail:
  assumes "\<not> cached w imei"
    and "\<not> answers_found imei (tr (length (requests w)) (request_url api_key imei))"
  obtains w1 where "get_device_info imei api_key tr w = (None, w1)"
    "requests w1 = requests w @ [request_url api_key imei]" "CACHE w1 = CACHE w"
proof (cases rule: get_device_info_cases [where w=w and imei=imei and tr=tr and api_key=api_key])
  case (hit d)
  with assms show ?thesis by (simp add: cached_def)
next
  case (found d)
  with assms show ?thesis by (simp add: answers_found_def)
next
  case (not_found m)
  then show ?thesis using that by simp
next
  case (raised e)
  then show ?thesis using that by simp
qed

lemma get_device_info_ok:
  assumes "cached w imei
    \<or> answers_found imei (tr (length (requests w)) (request_url api_key imei))"
  obtains dev w1 where "get_device_info imei api_key tr w = (Some dev, w1)"
    "requests w1 = requests w @ (if cached w imei then [] else [request_url api_key imei])"
    "map_of (CACHE w1) imei = Some dev"
proof (cases rule: get_device_info_cases [where w=w and imei=imei and tr=tr and api_key=api_key])
  case (hit d)
  then show ?thesis using that by (simp add: cached_def)
next
  case (found d)
  then show ?thesis using that by (simp add: cached_def map_add_def)
next
  case (not_found m)
  with assms show ?thesis by (simp add: answers_found_def cached_def)
next
  case (raised e)
  with assms show ?thesis by (simp add: answers_found_def cached_def)
qed


lemma query_ok_shift:
  assumes "requests w1 = requests w @ [u]" and "CACHE w1 = CACHE w"
  shows "query_ok api_key tr imei w1 j d = query_ok api_key tr imei w (Suc j) d"
  using assms by (simp add: query_ok_def cached_def)

lemma completion_step_fail:
  assumes "\<not> query_ok api_key tr imei w 0 d"
  obtains w1 where "completion_loop api_key tr imei (d # ds) w
                      = completion_loop api_key tr imei ds w1"
    "requests w1 = requests w @ [request_url api_key (candidate imei d)]"
    "CACHE w1 = CACHE w" "dialogs w1 = dialogs w" "all_device_info w1 = all_device_info w"
    "result_text w1 = result_text w"
proof -
  from assms have "\<not> cached w (candidate imei d)"
    and "\<not> answers_found (candidate imei d)
            (tr (length (requests w)) (request_url api_key (candidate imei d)))"
    by (simp_all add: query_ok_def)
  then obtain w1 where w1: "get_device_info (candidate imei d) api_key tr w = (None, w1)"
    "requests w1 = requests w @ [request_url api_key (candidate imei d)]" "CACHE w1 = CACHE w"
    by (rule get_device_info_fail)
  from w1(1) have "completion_loop api_key tr imei (d # ds) w
                      = completion_loop api_key tr imei ds w1"
    by (simp add: candidate_def)
  with w1 get_device_info_view [OF w1(1)] show ?thesis
    using that by simp
qed

lemma completion_all_fail:
  assumes "\<forall>j<length ds. \<not> query_ok api_key tr imei w j (ds ! j)"
  shows "requests (completion_loop api_key tr imei ds w)
           = requests w @ map (\<lambda>d. request_url api_key (candidate imei d)) ds
       \<and> dialogs (completion_loop api_key tr imei ds w)
           = dialogs w @ [ShowError (NoValidImei imei)]
       \<and> all_device_info (completion_loop api_key tr imei ds w) = all_device_info w
       \<and> result_text (completion_loop api_key tr imei ds w) = result_text w
       \<and> CACHE (completion_loop api_key tr imei ds w) = CACHE w"
  using assms
proof (induction ds arbitrary: w)
  case Nil
  then show ?case by (simp add: show_error_def)
next
  case (Cons d ds)
  from Cons.prems have "\<not> query_ok api_key tr imei w 0 d" by auto
  then obtain w1 where w1: "completion_loop api_key tr imei (d # ds) w
                      = completion_loop api_key tr imei ds w1"
    "requests w1 = requests w @ [request_url api_key (candidate imei d)]"
    "CACHE w1 = CACHE w" "dialogs w1 = dialogs w" "all_device_info w1 = all_device_info w"
    "result_text w1 = result_text w"
    by (rule completion_step_fail)
  have "\<forall>j<length ds. \<not> query_ok api_key tr imei w1 j (ds ! j)"
    using Cons.prems by (auto simp: query_ok_shift [OF w1(2,3)])
  from Cons.IH [OF this] w1 show ?case by simp
qed

lemma completion_first_ok:
  assumes "k < length ds" and "query_ok api_key tr imei w k (ds ! k)"
    and "\<forall>j<k. \<not> query_ok api_key tr imei w j (ds ! j)"
  shows "requests (completion_loop api_key tr imei ds w)
           = requests w @ map (\<lambda>d. request_url api_key (candidate imei d)) (take k ds)
               @ (if cached w (candidate imei (ds ! k)) then []
                  else [request_url api_key (candidate imei (ds ! k))])
       \<and> dialogs (completion_loop api_key tr imei ds w) = dialogs w
       \<and> (\<exists>dev. map_of (CACHE (completion_loop api_key tr imei ds w)) (candidate imei (ds ! k))
                   = Some dev
                \<and> all_device_info (completion_loop api_key tr imei ds w)
                   = all_device_info w @ [dev]
                \<and> result_text (completion_loop api_key tr imei ds w) = result_text w @ [dev])"
  using assms
proof (induction ds arbitrary: w k)
  case Nil
  then show ?case by simp
next
  case (Cons d ds)
  show ?case
  proof (cases k)
    case 0
    with Cons.prems have "cached w (candidate imei d)
      \<or> answers_found (candidate imei d)
           (tr (length (requests w)) (request_url api_key (candidate imei d)))"
      by (simp add: query_ok_def)
    then obtain dev w1 where w1: "get_device_info (candidate imei d) api_key tr w = (Some dev, w1)"
      "requests w1 = requests w
         @ (if cached w (candidate imei d) then [] else [request_url api_key (candidate imei d)])"
      "map_of (CACHE w1) (candidate imei d) = Some dev"
      by (rule get_device_info_ok)
    from w1(1) have "completion_loop api_key tr imei (d # ds) w = record_device dev w1"
      by (simp add: candidate_def)
    with w1 get_device_info_view [OF w1(1)] 0 show ?thesis
      by (simp add: record_device_def add_result_def)
  next
    case (Suc k')
    with Cons.prems have "\<not> query_ok api_key tr imei w 0 d" by auto
    then obtain w1 where w1: "completion_loop api_key tr imei (d # ds) w
                      = completion_loop api_key tr imei ds w1"
      "requests w1 = requests w @ [request_url api_key (candidate imei d)]"
      "CACHE w1 = CACHE w" "dialogs w1 = dialogs w" "all_device_info w1 = all_device_info w"
      "result_text w1 = result_text w"
      by (rule completion_step_fail)
    have a: "k' < length ds" using Cons.prems Suc by simp
    have b: "query_ok api_key tr imei w1 k' (ds ! k')"
      using Cons.prems Suc by (simp add: query_ok_shift [OF w1(2,3)])
    have c: "\<forall>j<k'. \<not> query_ok api_key tr imei w1 j (ds ! j)"
      using Cons.prems Suc by (auto simp: query_ok_shift [OF w1(2,3)])
    from Cons.IH [OF a b c] w1 Suc show ?thesis
      by (simp add: cached_def)
  qed
qed

lemmas cand_defs = candidate_ok_def query_ok_def cached_def answers_found_def candidate_def
  py_str_digit_def only_digit_7_def request_url_def try_request_def read_payload_def py_get_def
  done_payload_def error_payload_def initial_world_def

lemma upt_0_10: "[0..<10] = [0, 1, 2, 3, 4, 5, 6, 7, 8, 9::nat]"
  by code_simp

lemma upt_0_7: "[0..<7] = [0, 1, 2, 3, 4, 5, 6::nat]"
  by code_simp


text \<open>
  C1. The loop over \<open>range(10)\<close> looks the candidates up one after the other, digit 0
  first. If \<open>k\<close> is the first digit whose lookup succeeds, the requests sent are those for
  the digits 0 to \<open>k\<close>, in that order (the last one is spared when the candidate is
  cached), no later candidate is looked up, no error is shown and the record is added to
  the results. If no digit succeeds, all ten requests are sent. The error "no valid IMEI
  found" is shown if and only if all ten candidates fail.
\<close>

theorem completion_tries_digits_in_order:
  fixes api_key :: string and tr :: transport and imei :: string and w :: world
  defines "w' \<equiv> completion_loop api_key tr imei [0..<10] w"
  shows
   "(\<forall>k<10. candidate_ok api_key tr imei w k \<and> (\<forall>d<k. \<not> candidate_ok api_key tr imei w d) \<longrightarrow>
        requests w' = requests w
            @ map (\<lambda>d. request_url api_key (candidate imei d)) [0..<k]
            @ (if cached w (candidate imei k) then []
               else [request_url api_key (candidate imei k)])
        \<and> dialogs w' = dialogs w
        \<and> (\<exists>dev. map_of (CACHE w') (candidate imei k) = Some dev
                 \<and> all_device_info w' = all_device_info w @ [dev]
                 \<and> result_text w' = result_text w @ [dev]))
    \<and> ((\<forall>d<10. \<not> candidate_ok api_key tr imei w d) \<longrightarrow>
        requests w' = requests w
            @ map (\<lambda>d. request_url api_key (candidate imei d)) [0..<10]
        \<and> all_device_info w' = all_device_info w
        \<and> result_text w' = result_text w)
    \<and> (dialogs w' = dialogs w @ [ShowError (NoValidImei imei)]
          \<longleftrightarrow> (\<forall>d<10. \<not> candidate_ok api_key tr imei w d))"
proof -
  have hit: "requests w' = requests w
            @ map (\<lambda>d. request_url api_key (candidate imei d)) [0..<k]
            @ (if cached w (candidate imei k) then []
               else [request_url api_key (candidate imei k)])
        \<and> dialogs w' = dialogs w
        \<and> (\<exists>dev. map_of (CACHE w') (candidate imei k) = Some dev
                 \<and> all_device_info w' = all_device_info w @ [dev]
                 \<and> result_text w' = result_text w @ [dev])"
    if k: "k < 10" and ok: "candidate_ok api_key tr imei w k"
      and before: "\<forall>d<k. \<not> candidate_ok api_key tr imei w d" for k
  proof -
    have 1: "k < length [0..<10]" using k by simp
    have 2: "query_ok api_key tr imei w k ([0..<10] ! k)"
      using k ok by (simp add: candidate_ok_def)
    have 3: "\<forall>j<k. \<not> query_ok api_key tr imei w j ([0..<10] ! j)"
      using k before by (simp add: candidate_ok_def)
    have 4: "take k [0..<10] = [0..<k]" using k by (simp add: take_upt)
    from completion_first_ok [OF 1 2 3] k show ?thesis
      unfolding w'_def 4 by simp
  qed
  have miss: "requests w' = requests w
            @ map (\<lambda>d. request_url api_key (candidate imei d)) [0..<10]
        \<and> dialogs w' = dialogs w @ [ShowError (NoValidImei imei)]
        \<and> all_device_info w' = all_device_info w
        \<and> result_text w' = result_text w"
    if none: "\<forall>d<10. \<not> candidate_ok api_key tr imei w d"
  proof -
    have "\<forall>j<length [0..<10]. \<not> query_ok api_key tr imei w j ([0..<10] ! j)"
      using none by (simp add: candidate_ok_def)
    from completion_all_fail [OF this] show ?thesis
      unfolding w'_def by simp
  qed
  have only_if: "\<forall>d<10. \<not> candidate_ok api_key tr imei w d"
    if dlg: "dialogs w' = dialogs w @ [ShowError (NoValidImei imei)]"
  proof (rule ccontr)
    assume "\<not> (\<forall>d<10. \<not> candidate_ok api_key tr imei w d)"
    then obtain d where d: "d < 10" "candidate_ok api_key tr imei w d" by blast
    define k where "k = (LEAST d. candidate_ok api_key tr imei w d)"
    have ok: "candidate_ok api_key tr imei w k"
      unfolding k_def using d(2) by (rule LeastI)
    have "k \<le> d" unfolding k_def using d(2) by (rule Least_le)
    with d(1) have k: "k < 10" by simp
    have "\<forall>j<k. \<not> candidate_ok api_key tr imei w j"
      unfolding k_def using not_less_Least by blast
    from hit [OF k ok this] have "dialogs w' = dialogs w" by simp
    with dlg show False by simp
  qed
  from hit miss only_if show ?thesis by blast
qed

theorem completion_tries_digits_in_order_witness:
  "candidate_ok ''k'' only_digit_7 ''12345678901234'' initial_world 7
   \<and> requests (completion_loop ''k'' only_digit_7 ''12345678901234'' [0..<10] initial_world)
       = map (\<lambda>d. request_url ''k'' (candidate ''12345678901234'' d)) [0, 1, 2, 3, 4, 5, 6, 7]
   \<and> length (requests
        (completion_loop ''k'' only_digit_7 ''12345678901234'' [0..<10] initial_world)) = 8
   \<and> dialogs (completion_loop ''k'' only_digit_7 ''12345678901234'' [0..<10] initial_world) = []
   \<and> length (requests
        (completion_loop ''k'' always_disconnected ''12345678901234'' [0..<10] initial_world)) = 10
   \<and> dialogs (completion_loop ''k'' always_disconnected ''12345678901234'' [0..<10] initial_world)
       = [ShowError (NoValidImei ''12345678901234'')]"
proof -
  have none: "\<forall>d<10. \<not> candidate_ok ''k'' always_disconnected ''12345678901234'' initial_world d"
    by (simp add: candidate_ok_def query_ok_def cached_def answers_found_def
          always_disconnected_def try_request_def initial_world_def)
  note all = completion_tries_digits_in_order [where api_key = "''k''"
      and tr = always_disconnected and imei = "''12345678901234''" and w = initial_world]
  from all none
  have ten: "requests
      (completion_loop ''k'' always_disconnected ''12345678901234'' [0..<10] initial_world)
       = requests initial_world
           @ map (\<lambda>d. request_url ''k'' (candidate ''12345678901234'' d)) [0..<10]
     \<and> dialogs
      (completion_loop ''k'' always_disconnected ''12345678901234'' [0..<10] initial_world)
       = dialogs initial_world @ [ShowError (NoValidImei ''12345678901234'')]"
    by blast
  have ok: "candidate_ok ''k'' only_digit_7 ''12345678901234'' initial_world 7"
    by (simp add: cand_defs)
  have "\<forall>d\<in>set [0..<7]. \<not> candidate_ok ''k'' only_digit_7 ''12345678901234'' initial_world d"
    unfolding upt_0_7 by (simp add: cand_defs)
  then have before: "\<forall>d<7. \<not> candidate_ok ''k'' only_digit_7 ''12345678901234'' initial_world d"
    by simp
  have fresh: "\<not> cached initial_world (candidate ''12345678901234'' 7)"
    "requests initial_world = []" "dialogs initial_world = []"
    by (simp_all add: cached_def initial_world_def)
  from completion_tries_digits_in_order [where api_key = "''k''" and tr = only_digit_7
      and imei = "''12345678901234''" and w = initial_world, THEN conjunct1, rule_format, of 7]
    ok before
  have "requests (completion_loop ''k'' only_digit_7 ''12345678901234'' [0..<10] initial_world)
         = requests initial_world
            @ map (\<lambda>d. request_url ''k'' (candidate ''12345678901234'' d)) [0..<7]
            @ (if cached initial_world (candidate ''12345678901234'' 7) then []
               else [request_url ''k'' (candidate ''12345678901234'' 7)])
      \<and> dialogs (completion_loop ''k'' only_digit_7 ''12345678901234'' [0..<10] initial_world)
         = dialogs initial_world"
    by simp
  with ok before fresh none ten show ?thesis
    by (simp add: upt_0_7)
qed


section \<open>The batch loop only adds to the traces\<close>

lemma extends_refl: "extends w w"
  by (simp add: extends_def)

lemma extends_trans: "extends a b \<Longrightarrow> extends b c \<Longrightarrow> extends a c"
  by (auto simp: extends_def intro: prefix_order.trans)

lemma get_device_info_extends:
  "extends w (snd (get_device_info imei api_key tr w))"
proof (cases rule: get_device_info_cases [where w=w and imei=imei and tr=tr and api_key=api_key])
  case (found d)
  then show ?thesis by (auto simp: extends_def map_add_def)
qed (simp_all add: extends_def)

lemma completion_loop_extends:
  "extends w (completion_loop api_key tr imei ds w)"
proof (induction ds arbitrary: w)
  case Nil
  show ?case by (simp add: extends_def show_error_def)
next
  case (Cons d ds)
  obtain r w1 where g: "get_device_info (imei @ py_str_digit d) api_key tr w = (r, w1)"
    by (cases "get_device_info (imei @ py_str_digit d) api_key tr w")
  with get_device_info_extends [of w "imei @ py_str_digit d" api_key tr]
  have e1: "extends w w1" by simp
  show ?case
  proof (cases r)
    case None
    with g have "completion_loop api_key tr imei (d # ds) w = completion_loop api_key tr imei ds w1"
      by simp
    with extends_trans [OF e1 Cons.IH [of w1]] show ?thesis by simp
  next
    case (Some dev)
    with g have "completion_loop api_key tr imei (d # ds) w = record_device dev w1"
      by simp
    moreover have "extends w1 (record_device dev w1)"
      by (simp add: extends_def record_device_def add_result_def)
    ultimately show ?thesis using extends_trans [OF e1] by simp
  qed
qed

text \<open>The three courses of one round of the batch loop.\<close>

lemma process_imei_blank: "py_strip imei = [] \<Longrightarrow> process_imei api_key tr w imei = w"
  by (simp add: process_imei_def)

lemma process_imei_invalid:
  "py_strip imei \<noteq> [] \<Longrightarrow> \<not> valid_imei imei \<Longrightarrow>
   process_imei api_key tr w imei = show_error (InvalidImei imei (ValueError ImeiInvalido)) w"
  by (auto simp: process_imei_def try_imei_def valid_imei_def)

lemma process_imei_valid:
  "valid_imei imei \<Longrightarrow>
   process_imei api_key tr w imei =
     update_progress
       (if length imei = 14 then completion_loop api_key tr imei [0..<10] w
        else (case get_device_info imei api_key tr w of
                (Some device, w1) \<Rightarrow> record_device device w1
              | (None, w1) \<Rightarrow> w1))"
  using valid_not_blank [of imei]
  by (auto simp: process_imei_def try_imei_def valid_imei_def)

lemma direct_lookup_extends:
  "extends w (case get_device_info imei api_key tr w of
                (Some device, w1) \<Rightarrow> record_device device w1
              | (None, w1) \<Rightarrow> w1)"
  using get_device_info_extends [of w imei api_key tr]
  by (auto simp: extends_def record_device_def add_result_def split: prod.splits option.splits)

lemma process_imei_extends: "extends w (process_imei api_key tr w imei)"
proof (cases "py_strip imei = []")
  case True
  then show ?thesis by (simp add: process_imei_blank extends_refl)
next
  case False
  show ?thesis
  proof (cases "valid_imei imei")
    case False
    with \<open>py_strip imei \<noteq> []\<close> show ?thesis
      by (simp add: process_imei_invalid extends_def show_error_def)
  next
    case True
    have "extends w (if length imei = 14 then completion_loop api_key tr imei [0..<10] w
        else (case get_device_info imei api_key tr w of
                (Some device, w1) \<Rightarrow> record_device device w1
              | (None, w1) \<Rightarrow> w1))"
      by (simp add: completion_loop_extends direct_lookup_extends)
    then show ?thesis
      by (simp add: process_imei_valid [OF True] extends_def update_progress_def)
  qed
qed

lemma process_loop_extends: "extends w (process_loop api_key tr imeis w)"
proof (induction imeis arbitrary: w)
  case Nil
  show ?case by (simp add: process_loop_def extends_refl)
next
  case (Cons x xs)
  from extends_trans [OF process_imei_extends Cons.IH]
  show ?case by (simp add: process_loop_def)
qed


section \<open>The progress counter\<close>

lemma completion_loop_progress:
  "progress_value (completion_loop api_key tr imei ds w) = progress_value w"
proof (induction ds arbitrary: w)
  case Nil
  show ?case by (simp add: show_error_def)
next
  case (Cons d ds)
  obtain r w1 where g: "get_device_info (imei @ py_str_digit d) api_key tr w = (r, w1)"
    by (cases "get_device_info (imei @ py_str_digit d) api_key tr w")
  from get_device_info_view(4) [OF g] Cons.IH [of w1] g show ?case
    by (cases r) (simp_all add: record_device_def add_result_def)
qed

lemma process_imei_progress:
  "progress_value (process_imei api_key tr w imei)
     = progress_value w + (if valid_imei imei then 1 else 0)"
proof (cases "valid_imei imei")
  case True
  obtain r w1 where g: "get_device_info imei api_key tr w = (r, w1)"
    by (cases "get_device_info imei api_key tr w")
  from get_device_info_view(4) [OF g] g True show ?thesis
    by (cases r)
      (simp_all add: process_imei_valid update_progress_def completion_loop_progress
        record_device_def add_result_def)
next
  case False
  then show ?thesis
    by (cases "py_strip imei = []")
      (simp_all add: process_imei_blank process_imei_invalid show_error_def)
qed

lemma process_loop_progress:
  "progress_value (process_loop api_key tr imeis w)
     = progress_value w + length (filter valid_imei imeis)"
proof (induction imeis arbitrary: w)
  case Nil
  show ?case by (simp add: process_loop_def)
next
  case (Cons x xs)
  have "process_loop api_key tr (x # xs) w
          = process_loop api_key tr xs (process_imei api_key tr w x)"
    by (simp add: process_loop_def)
  with Cons.IH [of "process_imei api_key tr w x"] show ?case
    by (simp add: process_imei_progress)
qed

lemma process_imeis_progress:
  "api_key \<noteq> [] \<Longrightarrow> imeis \<noteq> [] \<Longrightarrow>
   progress_value (process_imeis api_key tr imeis w)
     = progress_value w + length (filter valid_imei imeis)"
  by (simp add: process_imeis_def Let_def process_loop_progress set_export_data_def
        show_info_def set_progress_max_def clear_results_def)

lemma example_validity:
  "\<not> valid_imei ''''" "\<not> valid_imei ''123''" "valid_imei ''12345678901234''"
  "valid_imei ''123456789012345''"
  by (simp_all add: valid_imei_def py_isdigit_def py_isdigit_char_def is_ascii_digit_def)


section \<open>Every entry is attempted\<close>

lemma new_suffix_right:
  assumes "prefix b c" and "x \<in> set (drop (length a) b)"
  shows "x \<in> set (drop (length a) c)"
proof -
  from assms(1) obtain e where "c = b @ e" by (auto simp: prefix_def)
  with assms(2) show ?thesis by auto
qed

lemma attempted_later:
  "attempted api_key imei w w1 \<Longrightarrow> extends w1 w' \<Longrightarrow> attempted api_key imei w w'"
  by (auto simp: attempted_def extends_def new_requests_def new_log_records_def
        intro: new_suffix_right)

lemma get_device_info_attempted:
  "attempted api_key imei w (snd (get_device_info imei api_key tr w))"
  by (cases rule: get_device_info_cases [where w=w and imei=imei and tr=tr and api_key=api_key])
    (simp_all add: attempted_def new_requests_def new_log_records_def)

lemma completion_loop_attempted:
  "attempted api_key (candidate imei d) w (completion_loop api_key tr imei (d # ds) w)"
proof -
  obtain r w1 where g: "get_device_info (candidate imei d) api_key tr w = (r, w1)"
    by (cases "get_device_info (candidate imei d) api_key tr w")
  with get_device_info_attempted [of api_key "candidate imei d" w tr]
  have a: "attempted api_key (candidate imei d) w w1" by simp
  have "extends w1 (completion_loop api_key tr imei (d # ds) w)"
  proof (cases r)
    case None
    with g show ?thesis by (simp add: candidate_def completion_loop_extends)
  next
    case (Some dev)
    with g show ?thesis
      by (simp add: candidate_def extends_def record_device_def add_result_def)
  qed
  with a show ?thesis by (rule attempted_later)
qed

lemma process_imei_attempted:
  assumes "valid_imei imei"
  shows "attempted api_key (first_query imei) w (process_imei api_key tr w imei)"
proof (cases "length imei = 14")
  case True
  have "[0..<10] = 0 # [1..<10]" by (simp add: upt_conv_Cons)
  with completion_loop_attempted [of api_key imei 0 w tr "[1..<10]"]
  have "attempted api_key (candidate imei 0) w (completion_loop api_key tr imei [0..<10] w)"
    by simp
  then have "attempted api_key (candidate imei 0) w
      (update_progress (completion_loop api_key tr imei [0..<10] w))"
    by (rule attempted_later) (simp add: extends_def update_progress_def)
  with True show ?thesis
    by (simp add: process_imei_valid [OF assms] first_query_def)
next
  case False
  obtain r w1 where g: "get_device_info imei api_key tr w = (r, w1)"
    by (cases "get_device_info imei api_key tr w")
  with get_device_info_attempted [of api_key imei w tr]
  have a: "attempted api_key imei w w1" by simp
  have "extends w1 (process_imei api_key tr w imei)"
    using False g
    by (cases r)
      (simp_all add: process_imei_valid [OF assms] extends_def update_progress_def
        record_device_def add_result_def)
  with a have "attempted api_key imei w (process_imei api_key tr w imei)"
    by (rule attempted_later)
  with False show ?thesis by (simp add: first_query_def)
qed

section \<open>The outcome of every entry\<close>

lemma completion_search_view:
  assumes "completion_search api_key tr imei ds w = (r, w1)"
  shows "dialogs w1 = dialogs w \<and> result_text w1 = result_text w
       \<and> all_device_info w1 = all_device_info w \<and> export_data w1 = export_data w"
  using assms
proof (induction ds arbitrary: w)
  case Nil
  then show ?case by simp
next
  case (Cons d ds)
  obtain r0 w0 where g: "get_device_info (imei @ py_str_digit d) api_key tr w = (r0, w0)"
    by (cases "get_device_info (imei @ py_str_digit d) api_key tr w")
  note v = get_device_info_view [OF g]
  show ?case
  proof (cases r0)
    case None
    with g Cons.prems have "completion_search api_key tr imei ds w0 = (r, w1)" by simp
    from Cons.IH [OF this] v show ?thesis by simp
  next
    case (Some dev)
    with g Cons.prems have "w1 = w0" by simp
    with v show ?thesis by simp
  qed
qed

lemma completion_loop_search:
  "completion_loop api_key tr imei ds w =
     (case completion_search api_key tr imei ds w of
        (Some device, w1) \<Rightarrow> record_device device w1
      | (None, w1) \<Rightarrow> show_error (NoValidImei imei) w1)"
proof (induction ds arbitrary: w)
  case Nil
  show ?case by simp
next
  case (Cons d ds)
  obtain r0 w0 where g: "get_device_info (imei @ py_str_digit d) api_key tr w = (r0, w0)"
    by (cases "get_device_info (imei @ py_str_digit d) api_key tr w")
  with Cons.IH [of w0] show ?case by (cases r0) simp_all
qed

lemma resolve_entry_view:
  assumes "resolve_entry api_key tr imei w = (r, w1)"
  shows "dialogs w1 = dialogs w \<and> result_text w1 = result_text w
       \<and> all_device_info w1 = all_device_info w \<and> export_data w1 = export_data w"
proof (cases "length imei = 14")
  case True
  with assms have "completion_search api_key tr imei [0..<10] w = (r, w1)"
    by (simp add: resolve_entry_def)
  then show ?thesis by (rule completion_search_view)
next
  case False
  with assms have "get_device_info imei api_key tr w = (r, w1)"
    by (simp add: resolve_entry_def)
  from get_device_info_view [OF this] show ?thesis by simp
qed

lemma process_imei_resolve:
  assumes "valid_imei imei"
  shows "process_imei api_key tr w imei =
     update_progress
       (case resolve_entry api_key tr imei w of
          (Some device, w1) \<Rightarrow> record_device device w1
        | (None, w1) \<Rightarrow> if length imei = 14 then show_error (NoValidImei imei) w1 else w1)"
  by (simp add: process_imei_valid [OF assms] resolve_entry_def completion_loop_search
        split: prod.splits option.splits)

text \<open>What one round adds to the results, to the dialogs and to the export data.\<close>

lemma process_imei_records:
  "all_device_info (process_imei api_key tr w imei)
     = all_device_info w @ records_of (entry_result_of api_key tr w imei)
   \<and> result_text (process_imei api_key tr w imei)
     = result_text w @ records_of (entry_result_of api_key tr w imei)
   \<and> export_data (process_imei api_key tr w imei) = export_data w"
proof (cases "valid_imei imei")
  case True
  then have nb: "py_strip imei \<noteq> []" by (rule valid_not_blank)
  obtain r w1 where g: "resolve_entry api_key tr imei w = (r, w1)"
    by (cases "resolve_entry api_key tr imei w")
  from resolve_entry_view [OF g] g True nb show ?thesis
    by (cases r)
      (simp_all add: process_imei_resolve entry_result_of_def records_of_def
        update_progress_def record_device_def add_result_def show_error_def)
next
  case False
  then show ?thesis
    by (cases "py_strip imei = []")
      (simp_all add: process_imei_blank process_imei_invalid entry_result_of_def
        records_of_def show_error_def)
qed

lemma process_imei_dialogs:
  "new_dialogs w (process_imei api_key tr w imei) =
     (case entry_result_of api_key tr w imei of
        Invalid \<Rightarrow> [ShowError (InvalidImei imei (ValueError ImeiInvalido))]
      | Failure \<Rightarrow> if length imei = 14 then [ShowError (NoValidImei imei)] else []
      | _ \<Rightarrow> [])"
proof (cases "valid_imei imei")
  case True
  then have nb: "py_strip imei \<noteq> []" by (rule valid_not_blank)
  obtain r w1 where g: "resolve_entry api_key tr imei w = (r, w1)"
    by (cases "resolve_entry api_key tr imei w")
  from resolve_entry_view [OF g] g True nb show ?thesis
    by (cases r)
      (simp_all add: process_imei_resolve entry_result_of_def new_dialogs_def
        update_progress_def record_device_def add_result_def show_error_def)
next
  case False
  then show ?thesis
    by (cases "py_strip imei = []")
      (simp_all add: process_imei_blank process_imei_invalid entry_result_of_def
        new_dialogs_def show_error_def)
qed

lemma process_loop_Cons:
  "process_loop api_key tr (x # xs) w = process_loop api_key tr xs (process_imei api_key tr w x)"
  by (simp add: process_loop_def)

lemma process_loop_records:
  "all_device_info (process_loop api_key tr imeis w)
     = all_device_info w @ successes (batch_results api_key tr imeis w)
   \<and> result_text (process_loop api_key tr imeis w)
     = result_text w @ successes (batch_results api_key tr imeis w)
   \<and> export_data (process_loop api_key tr imeis w) = export_data w"
proof (induction imeis arbitrary: w)
  case Nil
  show ?case by (simp add: process_loop_def successes_def)
next
  case (Cons x xs)
  from Cons.IH [of "process_imei api_key tr w x"]
    process_imei_records [of api_key tr w x]
  show ?case
    by (simp add: process_loop_Cons successes_def)
qed

lemma length_batch_results: "length (batch_results api_key tr imeis w) = length imeis"
  by (induction imeis arbitrary: w) simp_all

lemma world_before_0: "world_before api_key tr imeis w 0 = w"
  by (simp add: world_before_def process_loop_def)

lemma world_before_Cons:
  "world_before api_key tr (x # xs) w (Suc i)
     = world_before api_key tr xs (process_imei api_key tr w x) i"
  by (simp add: world_before_def process_loop_Cons)

lemma world_before_Suc:
  assumes "i < length imeis"
  shows "world_before api_key tr imeis w (Suc i)
           = process_imei api_key tr (world_before api_key tr imeis w i) (imeis ! i)"
  using assms
  by (simp add: world_before_def process_loop_def take_Suc_conv_app_nth)

lemma world_before_end:
  "world_before api_key tr imeis w (length imeis) = process_loop api_key tr imeis w"
  by (simp add: world_before_def)

lemma world_before_rest:
  "process_loop api_key tr imeis w
     = process_loop api_key tr (drop i imeis) (world_before api_key tr imeis w i)"
proof -
  have "process_loop api_key tr (take i imeis @ drop i imeis) w
     = process_loop api_key tr (drop i imeis) (world_before api_key tr imeis w i)"
    unfolding process_loop_def world_before_def by (rule foldl_append)
  then show ?thesis by simp
qed

lemma batch_results_nth:
  assumes "i < length imeis"
  shows "batch_results api_key tr imeis w ! i
           = entry_result_of api_key tr (world_before api_key tr imeis w i) (imeis ! i)"
  using assms
proof (induction imeis arbitrary: w i)
  case Nil
  then show ?case by simp
next
  case (Cons x xs)
  show ?case
  proof (cases i)
    case 0
    then show ?thesis by (simp add: world_before_0)
  next
    case (Suc j)
    with Cons.prems have "j < length xs" by simp
    from Cons.IH [OF this, of "process_imei api_key tr w x"] Suc show ?thesis
      by (simp add: world_before_Cons)
  qed
qed

text \<open>
  C7, amended. When the API key and the list are not empty, every entry of the list has
  its outcome, occurrence by occurrence and whatever happened to the entries before it. A
  blank entry changes nothing. An entry that fails validation is shown in its own
  "invalid IMEI" error dialog. For a valid entry \<open>get_device_info\<close> is called (a cache hit
  or a request) on the entry itself when it has 15 digits, on its first candidate when it
  has 14; a 14-digit entry whose lookups all fail is shown in a "no valid IMEI" dialog, and
  a success shows no dialog. What an entry adds to the traces stays in the final world.
  Every success is recorded: the list of results, the displayed results and, when there
  is a success, the export data are exactly the records of the entries that succeeded,
  in the order of the entries. No failure is recorded there.
\<close>

theorem batch_attempts_every_entry:
  fixes api_key :: string and tr :: transport and imeis :: "string list" and w :: world
  defines "w0 \<equiv> start_world (length imeis) w"
    and "w' \<equiv> process_imeis api_key tr imeis w"
    and "rs \<equiv> batch_results api_key tr imeis (start_world (length imeis) w)"
  assumes key: "api_key \<noteq> []" and entries: "imeis \<noteq> []"
  shows "length rs = length imeis
       \<and> all_device_info w' = successes rs
       \<and> result_text w' = successes rs
       \<and> export_data w' = (if successes rs = [] then export_data w else Some (successes rs))
       \<and> (\<forall>i<length imeis.
            rs ! i = entry_result_of api_key tr (world_before api_key tr imeis w0 i) (imeis ! i)
            \<and> extends w (world_before api_key tr imeis w0 i)
            \<and> extends (world_before api_key tr imeis w0 i)
                 (world_before api_key tr imeis w0 (Suc i))
            \<and> extends (world_before api_key tr imeis w0 (Suc i)) w'
            \<and> (py_strip (imeis ! i) = [] \<longrightarrow>
                 world_before api_key tr imeis w0 (Suc i) = world_before api_key tr imeis w0 i)
            \<and> (valid_imei (imeis ! i) \<longrightarrow>
                 attempted api_key (first_query (imeis ! i))
                   (world_before api_key tr imeis w0 i)
                   (world_before api_key tr imeis w0 (Suc i)))
            \<and> (rs ! i = Invalid \<longrightarrow>
                 new_dialogs (world_before api_key tr imeis w0 i)
                   (world_before api_key tr imeis w0 (Suc i))
                 = [ShowError (InvalidImei (imeis ! i) (ValueError ImeiInvalido))])
            \<and> (rs ! i = Failure \<and> length (imeis ! i) = 14 \<longrightarrow>
                 new_dialogs (world_before api_key tr imeis w0 i)
                   (world_before api_key tr imeis w0 (Suc i))
                 = [ShowError (NoValidImei (imeis ! i))])
            \<and> (\<forall>d. rs ! i = Success d \<longrightarrow>
                 new_dialogs (world_before api_key tr imeis w0 i)
                   (world_before api_key tr imeis w0 (Suc i)) = []))"
proof -
  define w2 where "w2 = process_loop api_key tr imeis w0"
  have start: "extends w w0" "all_device_info w0 = []" "result_text w0 = []"
    "export_data w0 = export_data w"
    by (simp_all add: w0_def start_world_def extends_def set_progress_max_def clear_results_def)
  have w': "w' = (if all_device_info w2 \<noteq> [] then set_export_data (all_device_info w2) w2
                  else show_info NoResults w2)"
    using key entries
    by (simp add: w'_def w2_def w0_def start_world_def process_imeis_def Let_def)
  have rs: "rs = batch_results api_key tr imeis w0"
    by (simp add: rs_def w0_def)
  from process_loop_records [of api_key tr imeis w0] start
  have loop: "all_device_info w2 = successes rs" "result_text w2 = successes rs"
    "export_data w2 = export_data w"
    by (simp_all add: w2_def rs)
  have finish: "extends w2 w'" "all_device_info w' = all_device_info w2"
    "result_text w' = result_text w2"
    "export_data w' = (if all_device_info w2 = [] then export_data w2
                       else Some (all_device_info w2))"
    by (simp_all add: w' extends_def set_export_data_def show_info_def)
  have count: "length rs = length imeis"
    by (simp add: rs length_batch_results)
  have each: "rs ! i = entry_result_of api_key tr (world_before api_key tr imeis w0 i) (imeis ! i)
            \<and> extends w (world_before api_key tr imeis w0 i)
            \<and> extends (world_before api_key tr imeis w0 i)
                 (world_before api_key tr imeis w0 (Suc i))
            \<and> extends (world_before api_key tr imeis w0 (Suc i)) w'
            \<and> (py_strip (imeis ! i) = [] \<longrightarrow>
                 world_before api_key tr imeis w0 (Suc i) = world_before api_key tr imeis w0 i)
            \<and> (valid_imei (imeis ! i) \<longrightarrow>
                 attempted api_key (first_query (imeis ! i))
                   (world_before api_key tr imeis w0 i)
                   (world_before api_key tr imeis w0 (Suc i)))
            \<and> (rs ! i = Invalid \<longrightarrow>
                 new_dialogs (world_before api_key tr imeis w0 i)
                   (world_before api_key tr imeis w0 (Suc i))
                 = [ShowError (InvalidImei (imeis ! i) (ValueError ImeiInvalido))])
            \<and> (rs ! i = Failure \<and> length (imeis ! i) = 14 \<longrightarrow>
                 new_dialogs (world_before api_key tr imeis w0 i)
                   (world_before api_key tr imeis w0 (Suc i))
                 = [ShowError (NoValidImei (imeis ! i))])
            \<and> (\<forall>d. rs ! i = Success d \<longrightarrow>
                 new_dialogs (world_before api_key tr imeis w0 i)
                   (world_before api_key tr imeis w0 (Suc i)) = [])"
    if i: "i < length imeis" for i
  proof -
    define wi where "wi = world_before api_key tr imeis w0 i"
    define wj where "wj = world_before api_key tr imeis w0 (Suc i)"
    have step: "wj = process_imei api_key tr wi (imeis ! i)"
      unfolding wi_def wj_def using i by (rule world_before_Suc)
    have r: "rs ! i = entry_result_of api_key tr wi (imeis ! i)"
      unfolding rs wi_def using i by (rule batch_results_nth)
    have "extends w0 wi"
      unfolding wi_def world_before_def by (rule process_loop_extends)
    with start(1) have e1: "extends w wi" by (rule extends_trans)
    have e2: "extends wi wj"
      unfolding step by (rule process_imei_extends)
    have "w2 = process_loop api_key tr (drop (Suc i) imeis) wj"
      unfolding w2_def wj_def by (rule world_before_rest)
    then have "extends wj w2" by (simp add: process_loop_extends)
    then have e3: "extends wj w'" using finish(1) by (rule extends_trans)
    have blank: "py_strip (imeis ! i) = [] \<longrightarrow> wj = wi"
      by (simp add: step process_imei_blank)
    have att: "valid_imei (imeis ! i) \<longrightarrow> attempted api_key (first_query (imeis ! i)) wi wj"
      by (simp add: step process_imei_attempted)
    have dlg: "new_dialogs wi wj =
       (case rs ! i of
          Invalid \<Rightarrow> [ShowError (InvalidImei (imeis ! i) (ValueError ImeiInvalido))]
        | Failure \<Rightarrow> if length (imeis ! i) = 14 then [ShowError (NoValidImei (imeis ! i))] else []
        | _ \<Rightarrow> [])"
      unfolding step r by (rule process_imei_dialogs)
    from r e1 e2 e3 blank att dlg show ?thesis
      unfolding wi_def [symmetric] wj_def [symmetric] by simp
  qed
  from count loop finish each show ?thesis by simp
qed

text \<open>
  C7, as the code has it. With an empty API key the batch is refused and the entry is not
  attempted. With a key, the batch of an invalid entry and a 15-digit entry whose lookup
  fails ends with nothing in the results and nothing in the export data: the invalid
  entry is only shown in an error dialog, and the failed lookup has no dialog of its own.
\<close>

theorem batch_outcomes_not_all_recorded:
  "process_imeis [] always_done [''123456789012345''] initial_world
     = show_error MissingInput initial_world
   \<and> requests (process_imeis [] always_done [''123456789012345''] initial_world) = []
   \<and> all_device_info
        (process_imeis ''k'' always_disconnected [''123'', ''123456789012345''] initial_world)
       = []
   \<and> result_text
        (process_imeis ''k'' always_disconnected [''123'', ''123456789012345''] initial_world)
       = []
   \<and> export_data
        (process_imeis ''k'' always_disconnected [''123'', ''123456789012345''] initial_world)
       = None
   \<and> dialogs
        (process_imeis ''k'' always_disconnected [''123'', ''123456789012345''] initial_world)
       = [ShowError (InvalidImei ''123'' (ValueError ImeiInvalido)), ShowInfo NoResults]
   \<and> requests
        (process_imeis ''k'' always_disconnected [''123'', ''123456789012345''] initial_world)
       = [request_url ''k'' ''123456789012345'']"
  by code_simp

theorem batch_attempts_every_entry_witness:
  "''k'' \<noteq> [] \<and> [''123'', ''123456789012345''] \<noteq> []
   \<and> batch_results ''k'' always_done [''123'', ''123456789012345'']
        (start_world 2 initial_world)
       = [Invalid, Success (stub_device ''123456789012345'')]
   \<and> all_device_info (process_imeis ''k'' always_done [''123'', ''123456789012345''] initial_world)
       = [stub_device ''123456789012345'']
   \<and> result_text (process_imeis ''k'' always_done [''123'', ''123456789012345''] initial_world)
       = [stub_device ''123456789012345'']
   \<and> export_data (process_imeis ''k'' always_done [''123'', ''123456789012345''] initial_world)
       = Some [stub_device ''123456789012345'']
   \<and> attempted ''k'' ''123456789012345''
        (world_before ''k'' always_done [''123'', ''123456789012345'']
           (start_world 2 initial_world) 1)
        (world_before ''k'' always_done [''123'', ''123456789012345'']
           (start_world 2 initial_world) 2)
   \<and> new_dialogs
        (world_before ''k'' always_done [''123'', ''123456789012345'']
           (start_world 2 initial_world) 0)
        (world_before ''k'' always_done [''123'', ''123456789012345'']
           (start_world 2 initial_world) 1)
       = [ShowError (InvalidImei ''123'' (ValueError ImeiInvalido))]"
proof -
  have key: "''k'' \<noteq> []" and entries: "[''123'', ''123456789012345''] \<noteq> []"
    by simp_all
  have rs: "batch_results ''k'' always_done [''123'', ''123456789012345'']
        (start_world 2 initial_world)
       = [Invalid, Success (stub_device ''123456789012345'')]"
    by code_simp
  have s: "successes [Invalid, Success (stub_device ''123456789012345'')]
       = [stub_device ''123456789012345'']"
    by (simp add: successes_def records_of_def)
  have v: "valid_imei ''123456789012345''"
    "first_query ''123456789012345'' = ''123456789012345''"
    by code_simp+
  have len: "length [''123'', ''123456789012345''] = 2"
    by simp
  have ne: "([stub_device ''123456789012345''] = []) = False"
    by simp
  note all = batch_attempts_every_entry [OF key entries, where tr = always_done
      and w = initial_world, unfolded len rs s ne if_False]
  from all
  have whole: "all_device_info
        (process_imeis ''k'' always_done [''123'', ''123456789012345''] initial_world)
       = [stub_device ''123456789012345'']
     \<and> result_text
        (process_imeis ''k'' always_done [''123'', ''123456789012345''] initial_world)
       = [stub_device ''123456789012345'']
     \<and> export_data
        (process_imeis ''k'' always_done [''123'', ''123456789012345''] initial_world)
       = Some [stub_device ''123456789012345'']"
    by blast
  note each = all [THEN conjunct2, THEN conjunct2, THEN conjunct2, THEN conjunct2, rule_format]
  have i1: "(1::nat) < 2" and i0: "(0::nat) < 2" and nth1: "[''123'', ''123456789012345''] ! 1 = ''123456789012345''"
    and nth0: "[''123'', ''123456789012345''] ! 0 = ''123''"
    and r0: "[Invalid, Success (stub_device ''123456789012345'')] ! 0 = Invalid"
    and suc: "Suc 1 = 2" "Suc 0 = 1"
    by simp_all
  from each [OF i1, unfolded nth1 suc] v
  have second: "attempted ''k'' ''123456789012345''
        (world_before ''k'' always_done [''123'', ''123456789012345'']
           (start_world 2 initial_world) 1)
        (world_before ''k'' always_done [''123'', ''123456789012345'']
           (start_world 2 initial_world) 2)"
    by simp
  from each [OF i0, unfolded nth0 suc r0]
  have first: "new_dialogs
        (world_before ''k'' always_done [''123'', ''123456789012345'']
           (start_world 2 initial_world) 0)
        (world_before ''k'' always_done [''123'', ''123456789012345'']
           (start_world 2 initial_world) 1)
       = [ShowError (InvalidImei ''123'' (ValueError ImeiInvalido))]"
    by blast
  from key entries rs whole second first show ?thesis by blast
qed


section \<open>Blank and padded entries\<close>

text \<open>
  C9, as the code has it. The entry "123456789012345 " is a valid identifier once trimmed,
  but validation sees it untrimmed and rejects it.
\<close>

theorem untrimmed_entry_is_rejected:
  "py_strip ''123456789012345 '' = ''123456789012345''
   \<and> valid_imei (py_strip ''123456789012345 '')
   \<and> process_imei ''k'' always_done initial_world ''123456789012345 ''
       = show_error (InvalidImei ''123456789012345 '' (ValueError ImeiInvalido)) initial_world
   \<and> process_imei ''k'' always_done initial_world ''123456789012345 ''
       \<noteq> process_imei ''k'' always_done initial_world (py_strip ''123456789012345 '')"
  by code_simp

text \<open>
  C9, amended. The trimmed entry is only tested for emptiness. An entry that is empty
  after trimming changes nothing: no outcome, no progress; the loop runs as if the blank
  entries were not in the list. Validation applies to the entry as given: an entry that
  is not blank and is not 14 or 15 digits as it stands is reported as invalid.
\<close>

theorem blank_entries_are_skipped:
  "(py_strip imei = [] \<longrightarrow> process_imei api_key tr w imei = w)
   \<and> process_loop api_key tr imeis w
       = process_loop api_key tr (filter (\<lambda>i. py_strip i \<noteq> []) imeis) w
   \<and> (py_strip imei \<noteq> [] \<and> \<not> valid_imei imei \<longrightarrow>
        process_imei api_key tr w imei
          = show_error (InvalidImei imei (ValueError ImeiInvalido)) w)"
proof -
  have "process_loop api_key tr imeis w
       = process_loop api_key tr (filter (\<lambda>i. py_strip i \<noteq> []) imeis) w"
  proof (induction imeis arbitrary: w)
    case Nil
    show ?case by simp
  next
    case (Cons x xs)
    show ?case
    proof (cases "py_strip x = []")
      case True
      with Cons.IH [of w] show ?thesis
        by (simp add: process_loop_def process_imei_blank)
    next
      case False
      with Cons.IH [of "process_imei api_key tr w x"] show ?thesis
        by (simp add: process_loop_def)
    qed
  qed
  then show ?thesis
    by (simp add: process_imei_blank process_imei_invalid)
qed

theorem blank_entries_are_skipped_witness:
  "py_strip ''   '' = []
   \<and> process_imei ''k'' always_done initial_world ''   '' = initial_world
   \<and> process_loop ''k'' always_done ['''', ''123'', ''   ''] initial_world
       = process_loop ''k'' always_done [''123''] initial_world
   \<and> py_strip ''12 3'' \<noteq> [] \<and> \<not> valid_imei ''12 3''
   \<and> process_imei ''k'' always_done initial_world ''12 3''
       = show_error (InvalidImei ''12 3'' (ValueError ImeiInvalido)) initial_world"
proof -
  have a: "py_strip ''   '' = []"
    by code_simp
  have b: "py_strip ''12 3'' \<noteq> []"
    by code_simp
  have c: "\<not> valid_imei ''12 3''"
    by code_simp
  have d: "filter (\<lambda>i. py_strip i \<noteq> []) ['''', ''123'', ''   ''] = [''123'']"
    by code_simp
  note skip = blank_entries_are_skipped [where imei = "''   ''" and api_key = "''k''"
      and tr = always_done and w = initial_world and imeis = "['''', ''123'', ''   '']"]
  note reject = blank_entries_are_skipped [where imei = "''12 3''" and api_key = "''k''"
      and tr = always_done and w = initial_world and imeis = "[]"]
  from skip a have 1: "process_imei ''k'' always_done initial_world ''   '' = initial_world"
    by blast
  from skip have 2: "process_loop ''k'' always_done ['''', ''123'', ''   ''] initial_world
       = process_loop ''k'' always_done [''123''] initial_world"
    unfolding d by blast
  from reject b c have 3: "process_imei ''k'' always_done initial_world ''12 3''
       = show_error (InvalidImei ''12 3'' (ValueError ImeiInvalido)) initial_world"
    by blast
  from a b c 1 2 3 show ?thesis by blast
qed

section \<open>The progress counter on the example batch\<close>

text \<open>
  C3, as the code has it. On the batch ["", "123", "12345678901234", "123456789012345"]
  the progress counter advances by 2, whatever the service answers: \<open>raise ValueError\<close>
  for "123" leaves the \<open>try\<close> before \<open>update_progress\<close>. With a service that fails the
  ten completions and then answers, the run shows one validation error, one "no valid
  IMEI" error and one record, and the counter ends at 2.
\<close>

theorem example_batch_progress_is_2:
  "progress_value
     (process_imeis ''k'' tr ['''', ''123'', ''12345678901234'', ''123456789012345''] w)
     = progress_value w + 2
   \<and> progress_value
     (process_imeis ''k'' fails_ten_times
        ['''', ''123'', ''12345678901234'', ''123456789012345''] initial_world) = 2
   \<and> dialogs
     (process_imeis ''k'' fails_ten_times
        ['''', ''123'', ''12345678901234'', ''123456789012345''] initial_world)
     = [ShowError (InvalidImei ''123'' (ValueError ImeiInvalido)),
        ShowError (NoValidImei ''12345678901234''), ShowInfo QueryDone]
   \<and> all_device_info
     (process_imeis ''k'' fails_ten_times
        ['''', ''123'', ''12345678901234'', ''123456789012345''] initial_world)
     = [stub_device ''123456789012345'']"
proof -
  have general: "progress_value
     (process_imeis ''k'' tr ['''', ''123'', ''12345678901234'', ''123456789012345''] w)
     = progress_value w + 2" for tr w
    by (simp add: process_imeis_progress example_validity)
  have run: "dialogs
     (process_imeis ''k'' fails_ten_times
        ['''', ''123'', ''12345678901234'', ''123456789012345''] initial_world)
     = [ShowError (InvalidImei ''123'' (ValueError ImeiInvalido)),
        ShowError (NoValidImei ''12345678901234''), ShowInfo QueryDone]
   \<and> all_device_info
     (process_imeis ''k'' fails_ten_times
        ['''', ''123'', ''12345678901234'', ''123456789012345''] initial_world)
     = [stub_device ''123456789012345'']"
    by code_simp
  have zero: "progress_value initial_world = 0" by (simp add: initial_world_def)
  from general [of fails_ten_times initial_world] general [of tr w] run zero show ?thesis by simp
qed

end
